theory Spec2Isabelle
  imports Complex_Main
begin

section \<open>The XPS conversion service (main.py)\<close>

text \<open>
  The service saves an uploaded file, opens it with the document backend (PyMuPDF), runs
  one of four pipelines over the pages, and cleans up. The backend, the archive and
  word-processing libraries and the file system are outside the repository: every call
  into them is an event of type \<open>call\<close>, the world records the calls in order, and an
  oracle of the world says which call raises, and with which message.
\<close>

subsection \<open>Data\<close>

type_synonym path = string
type_synonym bytes = "nat list"

text \<open>A text instance as \<open>page.search_for\<close> returns it: a rectangle.\<close>

record rect =
  x0 :: real
  y0 :: real
  x1 :: real
  y1 :: real

text \<open>What \<open>page.get_pixmap()\<close> returns: the code reads width, height and samples.\<close>

record pixmap =
  width :: nat
  height :: nat
  samples :: bytes

text \<open>The mutations the edit pipeline applies to a page, in the order applied.\<close>

datatype edit =
    Redact_annot rect
  | Redactions_applied
  | Text_inserted "real \<times> real" string nat "nat \<times> nat \<times> nat"

record page =
  page_text :: string
  page_pixmap :: pixmap
  page_hits :: "string \<Rightarrow> rect list"
  page_edits :: "edit list"

text \<open>An open document. The backend opens other formats than XPS too, whatever the
  file is called: \<open>is_pdf\<close> says whether the bytes were a PDF, the only kind of document
  the backend's annotation and text insertion calls accept.\<close>

record document =
  pages :: "page list"
  metadata :: "(string \<times> string) list"
  is_pdf :: bool

text \<open>\<open>Image.frombytes(mode, size, data)\<close> and its PNG encoding, kept symbolic.\<close>

datatype image = Image string "nat \<times> nat" bytes

datatype png = PNG image

text \<open>The body of the word-processing document is a list of paragraphs:
  \<open>add_paragraph(text)\<close> appends a paragraph with the text, and \<open>add_page_break()\<close>
  appends a paragraph of its own holding the page break.\<close>

datatype docx_paragraph = Text_paragraph string | Break_paragraph

datatype disk_file = Upload bytes | Pdf document | Docx "docx_paragraph list"

record upload_file =
  filename :: string
  content :: bytes

datatype call =
    Open_wb path
  | Upload_read
  | File_write path
  | Fitz_open path
  | Doc_save path
  | Load_page nat
  | Get_text nat
  | Get_pixmap nat
  | Image_frombytes string "nat \<times> nat" bytes
  | Image_save_png
  | ZipFile_open
  | ZipFile_close
  | Zip_writestr string
  | Document_new
  | Add_paragraph string
  | Add_page_break
  | Word_save path
  | Search_for nat string
  | Add_redact_annot nat rect
  | Apply_redactions nat
  | Insert_text nat "real \<times> real" string nat "nat \<times> nat \<times> nat"
  | Doc_close
  | Os_remove path

text \<open>
  The world of one request: the files on disk, the identifiers \<open>uuid.uuid4()\<close> will
  return (\<open>uuid_src\<close> at \<open>uuid_ctr\<close>, then at the next index), the document the backend
  reads out of given bytes, the oracle \<open>raises\<close> (asked with the number of calls made so
  far and the call), and the calls made so far.
\<close>

record world =
  files :: "path \<rightharpoonup> disk_file"
  uuid_src :: "nat \<Rightarrow> string"
  uuid_ctr :: nat
  xps_reader :: "bytes \<Rightarrow> document"
  raises :: "nat \<Rightarrow> call \<Rightarrow> string option"
  calls :: "call list"

text \<open>An exception of a library call is \<open>Inl\<close> of its message, \<open>str(e)\<close>.\<close>

type_synonym 'a io = "world \<Rightarrow> (string + 'a) \<times> world"

datatype exn = HTTPException nat string | Exception string

datatype response =
    FileResponse path string string
  | StreamingResponse "(string \<times> png) list" string "(string \<times> string) list"
  | JSONResponse "(string \<times> string) list" nat string
  | NoneResponse

subsection \<open>Library calls\<close>

definition lib :: "call \<Rightarrow> unit io" where
  "lib c w =
     (case raises w (length (calls w)) c of
        Some msg \<Rightarrow> (Inl msg, w\<lparr>calls := calls w @ [c]\<rparr>)
      | None \<Rightarrow> (Inr (), w\<lparr>calls := calls w @ [c]\<rparr>))"

definition ret :: "'a \<Rightarrow> 'a io" where
  "ret x w = (Inr x, w)"

definition then_do :: "'a io \<Rightarrow> ('a \<Rightarrow> 'b io) \<Rightarrow> 'b io" where
  "then_do m f w = (case m w of (Inl e, w') \<Rightarrow> (Inl e, w') | (Inr x, w') \<Rightarrow> f x w')"

definition uuid4 :: "world \<Rightarrow> string \<times> world" where
  "uuid4 w = (uuid_src w (uuid_ctr w), w\<lparr>uuid_ctr := Suc (uuid_ctr w)\<rparr>)"

text \<open>\<open>os.path.join\<close> of two components (posixpath).\<close>

definition os_path_join :: "path \<Rightarrow> path \<Rightarrow> path" where
  "os_path_join a b =
     (if take 1 b = ''/'' then b
      else if a = [] \<or> (a \<noteq> [] \<and> last a = CHR ''/'') then a @ b
      else a @ ''/'' @ b)"

text \<open>\<open>str(n)\<close> of a natural number, for the f-string \<open>page_{i+1}.png\<close>.\<close>

definition digit_char :: "nat \<Rightarrow> char" where
  "digit_char d = char_of (48 + d)"

fun str_nat :: "nat \<Rightarrow> string" where
  "str_nat n = (if n < 10 then [digit_char n] else str_nat (n div 10) @ [digit_char (n mod 10)])"

declare str_nat.simps [simp del]

text \<open>\<open>str.lower\<close> on ASCII letters and \<open>str.endswith\<close>.\<close>

definition lower_char :: "char \<Rightarrow> char" where
  "lower_char c =
     (if 65 \<le> (of_char c :: nat) \<and> (of_char c :: nat) \<le> 90 then char_of (of_char c + 32 :: nat) else c)"

definition lower :: "string \<Rightarrow> string" where
  "lower s = map lower_char s"

definition endswith :: "string \<Rightarrow> string \<Rightarrow> bool" where
  "endswith s suffix = (length suffix \<le> length s \<and> drop (length s - length suffix) s = suffix)"

subsection \<open>Configuration and helper functions\<close>

definition UPLOAD_FOLDER :: path where
  "UPLOAD_FOLDER = ''uploads''"

definition RESULT_FOLDER :: path where
  "RESULT_FOLDER = ''results''"

definition SUPPORTED_CONVERSIONS :: "(string \<times> string) list" where
  "SUPPORTED_CONVERSIONS =
     [(''pdf'', ''application/pdf''),
      (''images'', ''application/zip''),
      (''docx'', ''application/vnd.openxmlformats-officedocument.wordprocessingml.document'')]"

text \<open>
  \<open>save_file\<close>: the name is a fresh identifier plus \<open>.xps\<close>; \<open>open(.., "wb")\<close> creates the
  file empty, then the upload is read and written.
\<close>

definition save_file :: "upload_file \<Rightarrow> path io" where
  "save_file file w =
     (let (u, w0) = uuid4 w;
          safe_filename = u @ ''.xps'';
          input_path = os_path_join UPLOAD_FOLDER safe_filename
      in (case lib (Open_wb input_path) w0 of
            (Inl e, w1) \<Rightarrow> (Inl e, w1)
          | (Inr _, w1) \<Rightarrow>
              (let w2 = w1\<lparr>files := (files w1)(input_path \<mapsto> Upload [])\<rparr>
               in (case lib Upload_read w2 of
                     (Inl e, w3) \<Rightarrow> (Inl e, w3)
                   | (Inr _, w3) \<Rightarrow>
                       (case lib (File_write input_path) w3 of
                          (Inl e, w4) \<Rightarrow> (Inl e, w4)
                        | (Inr _, w4) \<Rightarrow>
                            (Inr input_path,
                             w4\<lparr>files := (files w4)(input_path \<mapsto> Upload (content file))\<rparr>))))))"

text \<open>\<open>os.remove\<close> and \<open>doc.close()\<close> are recorded and taken to succeed.\<close>

definition os_remove :: "path \<Rightarrow> world \<Rightarrow> world" where
  "os_remove p w = w\<lparr>files := (files w)(p := None), calls := calls w @ [Os_remove p]\<rparr>"

definition cleanup :: "path \<Rightarrow> world \<Rightarrow> world" where
  "cleanup file_path w = (if files w file_path \<noteq> None then os_remove file_path w else w)"

definition doc_close :: "world \<Rightarrow> world" where
  "doc_close w = w\<lparr>calls := calls w @ [Doc_close]\<rparr>"

subsection \<open>The document backend\<close>

definition len :: "document \<Rightarrow> nat" where
  "len doc = length (pages doc)"

text \<open>
  \<open>if doc:\<close> tests the truth value of the variable: \<open>None\<close> is false, and a
  document, which has \<open>__len__\<close> (the code calls \<open>len(doc)\<close>) and no \<open>__bool__\<close>, is
  true exactly when its length is not zero.
\<close>

definition truthy :: "document option \<Rightarrow> bool" where
  "truthy d = (case d of None \<Rightarrow> False | Some doc \<Rightarrow> len doc \<noteq> 0)"

definition fitz_open :: "path \<Rightarrow> document io" where
  "fitz_open p w =
     (case lib (Fitz_open p) w of
        (Inl e, w1) \<Rightarrow> (Inl e, w1)
      | (Inr _, w1) \<Rightarrow>
          (case files w1 p of
             Some (Upload b) \<Rightarrow> (Inr (xps_reader w1 b), w1)
           | Some (Pdf d) \<Rightarrow> (Inr d, w1)
           | _ \<Rightarrow> (Inl ''cannot open file'', w1)))"

definition load_page :: "document \<Rightarrow> nat \<Rightarrow> page io" where
  "load_page doc i =
     then_do (lib (Load_page i))
       (\<lambda>_ w. if i < len doc then (Inr (pages doc ! i), w) else (Inl ''page not in document'', w))"

definition get_text :: "page \<Rightarrow> nat \<Rightarrow> string io" where
  "get_text pg i = then_do (lib (Get_text i)) (\<lambda>_. ret (page_text pg))"

definition get_pixmap :: "page \<Rightarrow> nat \<Rightarrow> pixmap io" where
  "get_pixmap pg i = then_do (lib (Get_pixmap i)) (\<lambda>_. ret (page_pixmap pg))"

text \<open>\<open>page.search_for(needle)\<close> returns the list of instances; for the empty needle it
  returns \<open>None\<close>.\<close>

definition search_for :: "page \<Rightarrow> nat \<Rightarrow> string \<Rightarrow> rect list option io" where
  "search_for pg i needle =
     then_do (lib (Search_for i needle))
       (\<lambda>_. ret (if needle = [] then None else Some (page_hits pg needle)))"

text \<open>\<open>doc.save(path)\<close> refuses a document without pages.\<close>

definition doc_save :: "document \<Rightarrow> path \<Rightarrow> unit io" where
  "doc_save doc p =
     then_do (lib (Doc_save p))
       (\<lambda>_ w. if len doc < 1 then (Inl ''cannot save with zero pages'', w)
              else (Inr (), w\<lparr>files := (files w)(p \<mapsto> Pdf doc)\<rparr>))"

subsection \<open>POST /read-xps\<close>

definition page_separator :: string where
  "page_separator = [CHR 0x0A, CHR 0x0A] @ ''--- Page Break ---'' @ [CHR 0x0A, CHR 0x0A]"

text \<open>The loop \<open>for page_num in range(len(doc))\<close> over the indices still to visit.\<close>

fun read_pages :: "document \<Rightarrow> nat list \<Rightarrow> string \<Rightarrow> string io" where
  "read_pages doc [] text_content = ret text_content"
| "read_pages doc (page_num # rest) text_content =
     then_do (load_page doc page_num) (\<lambda>pg.
     then_do (get_text pg page_num) (\<lambda>t.
     read_pages doc rest (text_content @ t @ page_separator)))"

text \<open>The \<open>try\<close> suite: its outcome, the variable \<open>doc\<close> when it is left, the world.\<close>

definition read_xps_try :: "path \<Rightarrow> world \<Rightarrow> (string + response) \<times> document option \<times> world" where
  "read_xps_try input_path w =
     (case fitz_open input_path w of
        (Inl e, w1) \<Rightarrow> (Inl e, None, w1)
      | (Inr doc, w1) \<Rightarrow>
          (case read_pages doc [0..<len doc] [] w1 of
             (Inl e, w2) \<Rightarrow> (Inl e, Some doc, w2)
           | (Inr text_content, w2) \<Rightarrow>
               (Inr (JSONResponse (metadata doc) (len doc) text_content), Some doc, w2)))"

text \<open>The \<open>finally\<close> suite shared by the four endpoints.\<close>

definition finally_suite :: "document option \<Rightarrow> path \<Rightarrow> world \<Rightarrow> world" where
  "finally_suite doc input_path w = cleanup input_path (if truthy doc then doc_close w else w)"

definition read_xps :: "upload_file \<Rightarrow> world \<Rightarrow> (exn + response) \<times> world" where
  "read_xps file w =
     (if \<not> endswith (lower (filename file)) ''.xps''
      then (Inl (HTTPException 400 ''Only .xps files are allowed''), w)
      else (case save_file file w of
              (Inl e, w1) \<Rightarrow> (Inl (Exception e), w1)
            | (Inr input_path, w1) \<Rightarrow>
                (case read_xps_try input_path w1 of
                   (Inl e, doc, w2) \<Rightarrow>
                     (Inl (HTTPException 500 (''Failed to read XPS: '' @ e)), finally_suite doc input_path w2)
                 | (Inr r, doc, w2) \<Rightarrow> (Inr r, finally_suite doc input_path w2))))"

subsection \<open>Pages as PNG images in a ZIP archive\<close>

definition image_frombytes :: "string \<Rightarrow> nat \<times> nat \<Rightarrow> bytes \<Rightarrow> image io" where
  "image_frombytes mode sz data =
     then_do (lib (Image_frombytes mode sz data)) (\<lambda>_. ret (Image mode sz data))"

definition image_save_png :: "image \<Rightarrow> png io" where
  "image_save_png img = then_do (lib Image_save_png) (\<lambda>_. ret (PNG img))"

definition zip_writestr :: "string \<Rightarrow> png \<Rightarrow> (string \<times> png) list \<Rightarrow> (string \<times> png) list io" where
  "zip_writestr name data zipf = then_do (lib (Zip_writestr name)) (\<lambda>_. ret (zipf @ [(name, data)]))"

text \<open>The loop \<open>for i in range(len(doc))\<close> of \<open>/convert/images\<close> and of \<open>/preview-all\<close>
  (the two suites are the same text); \<open>zipf\<close> is the archive's entries in writing order.\<close>

fun render_pages :: "document \<Rightarrow> nat list \<Rightarrow> (string \<times> png) list \<Rightarrow> (string \<times> png) list io" where
  "render_pages doc [] zipf = ret zipf"
| "render_pages doc (i # rest) zipf =
     then_do (load_page doc i) (\<lambda>pg.
     then_do (get_pixmap pg i) (\<lambda>pix.
     then_do (image_frombytes ''RGB'' (width pix, height pix) (samples pix)) (\<lambda>img.
     then_do (image_save_png img) (\<lambda>data.
     then_do (zip_writestr (''page_'' @ str_nat (i + 1) @ ''.png'') data zipf) (\<lambda>zipf'.
     render_pages doc rest zipf')))))"

text \<open>The \<open>with zipfile.ZipFile(..) as zipf\<close> block: the archive is closed on both
  ways out, and an exception of the closing replaces the one of the body.\<close>

definition zip_pages :: "document \<Rightarrow> (string \<times> png) list io" where
  "zip_pages doc w =
     (case lib ZipFile_open w of
        (Inl e, w1) \<Rightarrow> (Inl e, w1)
      | (Inr _, w1) \<Rightarrow>
          (case render_pages doc [0..<len doc] [] w1 of
             (Inl e, w2) \<Rightarrow>
               (case lib ZipFile_close w2 of
                  (Inl e', w3) \<Rightarrow> (Inl e', w3)
                | (Inr _, w3) \<Rightarrow> (Inl e, w3))
           | (Inr zipf, w2) \<Rightarrow>
               (case lib ZipFile_close w2 of
                  (Inl e', w3) \<Rightarrow> (Inl e', w3)
                | (Inr _, w3) \<Rightarrow> (Inr zipf, w3))))"

subsection \<open>POST /preview-all\<close>

definition preview_all_xps_try ::
  "path \<Rightarrow> world \<Rightarrow> (string + response) \<times> document option \<times> world" where
  "preview_all_xps_try input_path w =
     (case fitz_open input_path w of
        (Inl e, w1) \<Rightarrow> (Inl e, None, w1)
      | (Inr doc, w1) \<Rightarrow>
          (case zip_pages doc w1 of
             (Inl e, w2) \<Rightarrow> (Inl e, Some doc, w2)
           | (Inr zipf, w2) \<Rightarrow>
               (Inr (StreamingResponse zipf ''application/zip''
                       [(''Content-Disposition'', ''attachment; filename=preview_pages.zip'')]),
                Some doc, w2)))"

definition preview_all_xps :: "upload_file \<Rightarrow> world \<Rightarrow> (exn + response) \<times> world" where
  "preview_all_xps file w =
     (if \<not> endswith (lower (filename file)) ''.xps''
      then (Inl (HTTPException 400 ''Only .xps files are allowed''), w)
      else (case save_file file w of
              (Inl e, w1) \<Rightarrow> (Inl (Exception e), w1)
            | (Inr input_path, w1) \<Rightarrow>
                (case preview_all_xps_try input_path w1 of
                   (Inl e, doc, w2) \<Rightarrow>
                     (Inl (HTTPException 500 (''Failed to generate preview: '' @ e)),
                      finally_suite doc input_path w2)
                 | (Inr r, doc, w2) \<Rightarrow> (Inr r, finally_suite doc input_path w2))))"

subsection \<open>POST /convert/{conversion_type}\<close>

definition document_new :: "docx_paragraph list io" where
  "document_new = then_do (lib Document_new) (\<lambda>_. ret [])"

definition add_paragraph :: "string \<Rightarrow> docx_paragraph list \<Rightarrow> docx_paragraph list io" where
  "add_paragraph t word_doc = then_do (lib (Add_paragraph t)) (\<lambda>_. ret (word_doc @ [Text_paragraph t]))"

definition add_page_break :: "docx_paragraph list \<Rightarrow> docx_paragraph list io" where
  "add_page_break word_doc = then_do (lib Add_page_break) (\<lambda>_. ret (word_doc @ [Break_paragraph]))"

definition word_save :: "docx_paragraph list \<Rightarrow> path \<Rightarrow> unit io" where
  "word_save word_doc p =
     then_do (lib (Word_save p)) (\<lambda>_ w. (Inr (), w\<lparr>files := (files w)(p \<mapsto> Docx word_doc)\<rparr>))"

fun docx_pages :: "document \<Rightarrow> nat list \<Rightarrow> docx_paragraph list \<Rightarrow> docx_paragraph list io" where
  "docx_pages doc [] word_doc = ret word_doc"
| "docx_pages doc (i # rest) word_doc =
     then_do (load_page doc i) (\<lambda>pg.
     then_do (get_text pg i) (\<lambda>t.
     then_do (add_paragraph t word_doc) (\<lambda>word_doc1.
     then_do (if int i < int (len doc) - 1 then add_page_break word_doc1 else ret word_doc1)
       (\<lambda>word_doc2.
     docx_pages doc rest word_doc2))))"

text \<open>\<open>SUPPORTED_CONVERSIONS[k]\<close>; a missing key raises \<open>KeyError\<close>.\<close>

definition supported_conversion :: "string \<Rightarrow> string io" where
  "supported_conversion k w =
     (case map_of SUPPORTED_CONVERSIONS k of
        Some m \<Rightarrow> (Inr m, w)
      | None \<Rightarrow> (Inl ([CHR 0x27] @ k @ [CHR 0x27]), w))"

text \<open>\<open>str(list(SUPPORTED_CONVERSIONS.keys()))\<close>.\<close>

fun comma_join :: "string list \<Rightarrow> string" where
  "comma_join [] = []"
| "comma_join [x] = x"
| "comma_join (x # y # ys) = x @ '', '' @ comma_join (y # ys)"

definition str_keys :: "(string \<times> string) list \<Rightarrow> string" where
  "str_keys d = ''['' @ comma_join (map (\<lambda>(k, _). [CHR 0x27] @ k @ [CHR 0x27]) d) @ '']''"

definition convert_xps_try ::
  "string \<Rightarrow> path \<Rightarrow> world \<Rightarrow> (string + response) \<times> document option \<times> world" where
  "convert_xps_try conversion_type input_path w =
     (case fitz_open input_path w of
        (Inl e, w1) \<Rightarrow> (Inl e, None, w1)
      | (Inr doc, w1) \<Rightarrow>
          (let (u, w2) = uuid4 w1;
               output_filename = u @ ''.'' @ conversion_type;
               output_path = os_path_join RESULT_FOLDER output_filename;
               (r, w3) =
                 (if conversion_type = ''pdf'' then
                    then_do (doc_save doc output_path) (\<lambda>_.
                    then_do (supported_conversion ''pdf'') (\<lambda>m.
                    ret (FileResponse output_path m output_filename))) w2
                  else if conversion_type = ''images'' then
                    then_do (zip_pages doc) (\<lambda>zipf.
                    ret (StreamingResponse zipf ''application/zip''
                           [(''Content-Disposition'', ''attachment; filename=images.zip'')])) w2
                  else if conversion_type = ''docx'' then
                    then_do document_new (\<lambda>word_doc.
                    then_do (docx_pages doc [0..<len doc] word_doc) (\<lambda>word_doc'.
                    then_do (word_save word_doc' output_path) (\<lambda>_.
                    then_do (supported_conversion ''docx'') (\<lambda>m.
                    ret (FileResponse output_path m output_filename))))) w2
                  else ret NoneResponse w2)
           in (r, Some doc, w3)))"

definition convert_xps :: "string \<Rightarrow> upload_file \<Rightarrow> world \<Rightarrow> (exn + response) \<times> world" where
  "convert_xps conversion_type file w =
     (if map_of SUPPORTED_CONVERSIONS conversion_type = None
      then (Inl (HTTPException 400
                  (''Unsupported conversion. Allowed: '' @ str_keys SUPPORTED_CONVERSIONS)), w)
      else if \<not> endswith (lower (filename file)) ''.xps''
      then (Inl (HTTPException 400 ''Only .xps files are allowed''), w)
      else (case save_file file w of
              (Inl e, w1) \<Rightarrow> (Inl (Exception e), w1)
            | (Inr input_path, w1) \<Rightarrow>
                (case convert_xps_try conversion_type input_path w1 of
                   (Inl e, doc, w2) \<Rightarrow>
                     (Inl (HTTPException 500 (''Conversion failed: '' @ e)),
                      finally_suite doc input_path w2)
                 | (Inr r, doc, w2) \<Rightarrow> (Inr r, finally_suite doc input_path w2))))"

subsection \<open>POST /edit-xps\<close>

text \<open>A mutating call on page \<open>page_num\<close> of the open document leaves its trace in the
  page's edits.\<close>

definition page_edit :: "nat \<Rightarrow> edit \<Rightarrow> document \<Rightarrow> document" where
  "page_edit page_num e doc =
     doc\<lparr>pages := (pages doc)
            [page_num := (pages doc ! page_num)
               \<lparr>page_edits := page_edits (pages doc ! page_num) @ [e]\<rparr>]\<rparr>"

text \<open>\<open>page.add_redact_annot\<close>, \<open>page.apply_redactions\<close> and \<open>page.insert_text\<close> work
  on PDF documents only; on any other document they raise.\<close>

definition pdf_only :: "document \<Rightarrow> call \<Rightarrow> unit io" where
  "pdf_only doc c =
     then_do (lib c) (\<lambda>_ w. if is_pdf doc then (Inr (), w) else (Inl ''is no PDF'', w))"

definition add_redact_annot :: "document \<Rightarrow> nat \<Rightarrow> rect \<Rightarrow> unit io" where
  "add_redact_annot doc page_num inst = pdf_only doc (Add_redact_annot page_num inst)"

definition apply_redactions :: "document \<Rightarrow> nat \<Rightarrow> unit io" where
  "apply_redactions doc page_num = pdf_only doc (Apply_redactions page_num)"

definition insert_text ::
  "document \<Rightarrow> nat \<Rightarrow> real \<times> real \<Rightarrow> string \<Rightarrow> nat \<Rightarrow> nat \<times> nat \<times> nat \<Rightarrow> unit io" where
  "insert_text doc page_num point t fontsize color =
     pdf_only doc (Insert_text page_num point t fontsize color)"

text \<open>The inner loop \<open>for inst in text_instances\<close>; the document is returned as the
  calls left it, also when one of them raises.\<close>

fun edit_instances ::
  "nat \<Rightarrow> string \<Rightarrow> rect list \<Rightarrow> document \<Rightarrow> world \<Rightarrow> (string + unit) \<times> document \<times> world" where
  "edit_instances page_num new_text [] doc w = (Inr (), doc, w)"
| "edit_instances page_num new_text (inst # rest) doc w =
     (case add_redact_annot doc page_num inst w of
        (Inl e, w1) \<Rightarrow> (Inl e, doc, w1)
      | (Inr _, w1) \<Rightarrow>
          (let doc1 = page_edit page_num (Redact_annot inst) doc
           in (case apply_redactions doc1 page_num w1 of
                 (Inl e, w2) \<Rightarrow> (Inl e, doc1, w2)
               | (Inr _, w2) \<Rightarrow>
                   (let doc2 = page_edit page_num Redactions_applied doc1
                    in (case insert_text doc2 page_num (x0 inst, y0 inst) new_text 11 (0, 0, 0) w2 of
                          (Inl e, w3) \<Rightarrow> (Inl e, doc2, w3)
                        | (Inr _, w3) \<Rightarrow>
                            edit_instances page_num new_text rest
                              (page_edit page_num
                                 (Text_inserted (x0 inst, y0 inst) new_text 11 (0, 0, 0)) doc2)
                              w3)))))"

text \<open>The outer loop; \<open>for inst in None\<close> raises \<open>TypeError\<close>.\<close>

definition not_iterable :: string where
  "not_iterable = [CHR 0x27] @ ''NoneType'' @ [CHR 0x27] @ '' object is not iterable''"

fun edit_pages ::
  "string \<Rightarrow> string \<Rightarrow> nat list \<Rightarrow> document \<Rightarrow> world \<Rightarrow> (string + unit) \<times> document \<times> world" where
  "edit_pages old_text new_text [] doc w = (Inr (), doc, w)"
| "edit_pages old_text new_text (page_num # rest) doc w =
     (case load_page doc page_num w of
        (Inl e, w1) \<Rightarrow> (Inl e, doc, w1)
      | (Inr pg, w1) \<Rightarrow>
          (case search_for pg page_num old_text w1 of
             (Inl e, w2) \<Rightarrow> (Inl e, doc, w2)
           | (Inr None, w2) \<Rightarrow> (Inl not_iterable, doc, w2)
           | (Inr (Some text_instances), w2) \<Rightarrow>
               (case edit_instances page_num new_text text_instances doc w2 of
                  (Inl e, doc1, w3) \<Rightarrow> (Inl e, doc1, w3)
                | (Inr _, doc1, w3) \<Rightarrow> edit_pages old_text new_text rest doc1 w3)))"

definition edit_xps_try ::
  "string \<Rightarrow> string \<Rightarrow> path \<Rightarrow> world \<Rightarrow> (string + response) \<times> document option \<times> world" where
  "edit_xps_try old_text new_text input_path w =
     (case fitz_open input_path w of
        (Inl e, w1) \<Rightarrow> (Inl e, None, w1)
      | (Inr doc, w1) \<Rightarrow>
          (case edit_pages old_text new_text [0..<len doc] doc w1 of
             (Inl e, doc1, w2) \<Rightarrow> (Inl e, Some doc1, w2)
           | (Inr _, doc1, w2) \<Rightarrow>
               (let (u, w3) = uuid4 w2;
                    output_filename = ''edited_'' @ u @ ''.pdf'';
                    output_path = os_path_join RESULT_FOLDER output_filename
                in (case doc_save doc1 output_path w3 of
                      (Inl e, w4) \<Rightarrow> (Inl e, Some doc1, w4)
                    | (Inr _, w4) \<Rightarrow>
                        (Inr (FileResponse output_path ''application/pdf'' output_filename),
                         Some doc1, w4)))))"

definition edit_xps :: "upload_file \<Rightarrow> string \<Rightarrow> string \<Rightarrow> world \<Rightarrow> (exn + response) \<times> world" where
  "edit_xps file old_text new_text w =
     (if \<not> endswith (lower (filename file)) ''.xps''
      then (Inl (HTTPException 400 ''Only .xps files are allowed''), w)
      else (case save_file file w of
              (Inl e, w1) \<Rightarrow> (Inl (Exception e), w1)
            | (Inr input_path, w1) \<Rightarrow>
                (case edit_xps_try old_text new_text input_path w1 of
                   (Inl e, doc, w2) \<Rightarrow>
                     (Inl (HTTPException 500 (''Failed to edit XPS: '' @ e)),
                      finally_suite doc input_path w2)
                 | (Inr r, doc, w2) \<Rightarrow> (Inr r, finally_suite doc input_path w2))))"

section \<open>Notions used to state the properties\<close>

text \<open>A run in which the oracle lets every library call through: the document is valid
  and the libraries and the file system work. What the backend refuses by itself (the
  empty needle, a document without pages to save, annotations on a document that is no
  PDF) is part of the calls above and not of the oracle.\<close>

definition quiet :: "world \<Rightarrow> bool" where
  "quiet w = (\<forall>n c. raises w n c = None)"

text \<open>The path \<open>save_file\<close> allocates in a world, the world a successful \<open>save_file\<close>
  leaves, and the path of the next result file.\<close>

definition upload_path :: "world \<Rightarrow> path" where
  "upload_path w = os_path_join UPLOAD_FOLDER (uuid_src w (uuid_ctr w) @ ''.xps'')"

definition saved :: "upload_file \<Rightarrow> world \<Rightarrow> world" where
  "saved file w =
     w\<lparr>uuid_ctr := Suc (uuid_ctr w),
       calls := calls w @ [Open_wb (upload_path w), Upload_read, File_write (upload_path w)],
       files := (files w)(upload_path w \<mapsto> Upload (content file))\<rparr>"

definition source_doc :: "upload_file \<Rightarrow> world \<Rightarrow> document" where
  "source_doc file w = xps_reader w (content file)"

definition result_name :: "world \<Rightarrow> string" where
  "result_name w = uuid_src w (Suc (uuid_ctr w))"

text \<open>Archive entry and library calls of page \<open>i\<close> in the image pipelines.\<close>

definition page_entry :: "document \<Rightarrow> nat \<Rightarrow> string \<times> png" where
  "page_entry doc i =
     (''page_'' @ str_nat (i + 1) @ ''.png'',
      PNG (Image ''RGB''
             (width (page_pixmap (pages doc ! i)), height (page_pixmap (pages doc ! i)))
             (samples (page_pixmap (pages doc ! i)))))"

definition render_calls :: "document \<Rightarrow> nat \<Rightarrow> call list" where
  "render_calls doc i =
     [Load_page i, Get_pixmap i,
      Image_frombytes ''RGB''
        (width (page_pixmap (pages doc ! i)), height (page_pixmap (pages doc ! i)))
        (samples (page_pixmap (pages doc ! i))),
      Image_save_png, Zip_writestr (''page_'' @ str_nat (i + 1) @ ''.png'')]"

text \<open>Blocks and calls of page \<open>i\<close> in the DOCX pipeline.\<close>

definition docx_blocks :: "document \<Rightarrow> nat \<Rightarrow> docx_paragraph list" where
  "docx_blocks doc i =
     Text_paragraph (page_text (pages doc ! i)) #
     (if int i < int (len doc) - 1 then [Break_paragraph] else [])"

definition docx_calls :: "document \<Rightarrow> nat \<Rightarrow> call list" where
  "docx_calls doc i =
     [Load_page i, Get_text i, Add_paragraph (page_text (pages doc ! i))] @
     (if int i < int (len doc) - 1 then [Add_page_break] else [])"

text \<open>The DOCX body of the specification: one paragraph per text, a page break after
  every one of them except the last; the texts of the text paragraphs, the number of
  page breaks.\<close>

fun paragraphs_with_breaks :: "string list \<Rightarrow> docx_paragraph list" where
  "paragraphs_with_breaks [] = []"
| "paragraphs_with_breaks [t] = [Text_paragraph t]"
| "paragraphs_with_breaks (t # t' # ts) =
     Text_paragraph t # Break_paragraph # paragraphs_with_breaks (t' # ts)"

fun paragraph_texts :: "docx_paragraph list \<Rightarrow> string list" where
  "paragraph_texts [] = []"
| "paragraph_texts (Text_paragraph t # bs) = t # paragraph_texts bs"
| "paragraph_texts (Break_paragraph # bs) = paragraph_texts bs"

fun page_break_count :: "docx_paragraph list \<Rightarrow> nat" where
  "page_break_count [] = 0"
| "page_break_count (Text_paragraph t # bs) = page_break_count bs"
| "page_break_count (Break_paragraph # bs) = Suc (page_break_count bs)"

text \<open>The specification's text replacement: per instance, redact its rectangle, apply,
  insert the new text at \<open>(x0, y0)\<close> with size 11 in black.\<close>

definition instance_calls :: "nat \<Rightarrow> string \<Rightarrow> rect \<Rightarrow> call list" where
  "instance_calls i new_text inst =
     [Add_redact_annot i inst, Apply_redactions i,
      Insert_text i (x0 inst, y0 inst) new_text 11 (0, 0, 0)]"

definition instance_edits :: "string \<Rightarrow> rect \<Rightarrow> edit list" where
  "instance_edits new_text inst =
     [Redact_annot inst, Redactions_applied, Text_inserted (x0 inst, y0 inst) new_text 11 (0, 0, 0)]"

definition page_calls :: "string \<Rightarrow> string \<Rightarrow> document \<Rightarrow> nat \<Rightarrow> call list" where
  "page_calls old_text new_text doc i =
     [Load_page i, Search_for i old_text] @
     concat (map (instance_calls i new_text) (page_hits (pages doc ! i) old_text))"

definition replaced_page :: "string \<Rightarrow> string \<Rightarrow> page \<Rightarrow> page" where
  "replaced_page old_text new_text pg =
     pg\<lparr>page_edits := page_edits pg @ concat (map (instance_edits new_text) (page_hits pg old_text))\<rparr>"

definition replaced :: "string \<Rightarrow> string \<Rightarrow> document \<Rightarrow> document" where
  "replaced old_text new_text doc = doc\<lparr>pages := map (replaced_page old_text new_text) (pages doc)\<rparr>"

text \<open>A text occurs nowhere when no page holds an instance of it.\<close>

definition occurs_nowhere :: "string \<Rightarrow> document \<Rightarrow> bool" where
  "occurs_nowhere old_text doc = list_all (\<lambda>pg. page_hits pg old_text = []) (pages doc)"

definition number_of :: "call \<Rightarrow> call list \<Rightarrow> nat" where
  "number_of c cs = length (filter (\<lambda>x. x = c) cs)"

text \<open>Appending edits to one page, and the document once the pages of \<open>js\<close> are done.\<close>

definition edits_appended :: "nat \<Rightarrow> edit list \<Rightarrow> document \<Rightarrow> document" where
  "edits_appended i es doc =
     doc\<lparr>pages := (pages doc)[i := (pages doc ! i)\<lparr>page_edits := page_edits (pages doc ! i) @ es\<rparr>]\<rparr>"

definition replaced_on :: "nat list \<Rightarrow> string \<Rightarrow> string \<Rightarrow> document \<Rightarrow> document" where
  "replaced_on js old_text new_text doc =
     doc\<lparr>pages := map (\<lambda>j. if j \<in> set js then replaced_page old_text new_text (pages doc ! j)
                            else pages doc ! j) [0..<len doc]\<rparr>"

text \<open>The names written into the archive, read off the calls; the body of a DOCX file on
  disk; the number a decimal string stands for.\<close>

fun zip_writes :: "call list \<Rightarrow> string list" where
  "zip_writes [] = []"
| "zip_writes (Zip_writestr name # cs) = name # zip_writes cs"
| "zip_writes (c # cs) = zip_writes cs"

definition docx_body :: "disk_file option \<Rightarrow> docx_paragraph list" where
  "docx_body f = (case f of Some (Docx bs) \<Rightarrow> bs | _ \<Rightarrow> [])"

definition nat_of_digits :: "string \<Rightarrow> nat" where
  "nat_of_digits s = foldl (\<lambda>a c. 10 * a + (of_char c - 48)) 0 s"

subsection \<open>Sample inputs\<close>

definition page_intro :: page where
  "page_intro =
     \<lparr>page_text = ''Intro'',
      page_pixmap = \<lparr>width = 2, height = 1, samples = [0, 0, 0, 255, 255, 255]\<rparr>,
      page_hits = (\<lambda>needle. []),
      page_edits = []\<rparr>"

definition draft_rect :: rect where
  "draft_rect = \<lparr>x0 = 72, y0 = 100, x1 = 110, y1 = 112\<rparr>"

definition page_draft :: page where
  "page_draft =
     \<lparr>page_text = ''Draft copy'',
      page_pixmap = \<lparr>width = 1, height = 1, samples = [9, 9, 9]\<rparr>,
      page_hits = (\<lambda>needle. if needle = ''Draft'' then [draft_rect] else []),
      page_edits = []\<rparr>"

definition page_last :: page where
  "page_last =
     \<lparr>page_text = ''The end'',
      page_pixmap = \<lparr>width = 1, height = 2, samples = [1, 2, 3, 4, 5, 6]\<rparr>,
      page_hits = (\<lambda>needle. []),
      page_edits = []\<rparr>"

text \<open>A document of three pages read from XPS bytes, the same read from PDF bytes, and a
  document without pages.\<close>

definition doc3 :: document where
  "doc3 =
     \<lparr>pages = [page_intro, page_draft, page_last], metadata = [(''title'', ''Report'')],
      is_pdf = False\<rparr>"

definition pdf3 :: document where
  "pdf3 = doc3\<lparr>is_pdf := True\<rparr>"

definition doc0 :: document where
  "doc0 = \<lparr>pages = [], metadata = [], is_pdf = False\<rparr>"

definition world_of :: "document \<Rightarrow> world" where
  "world_of d =
     \<lparr>files = Map.empty,
      uuid_src = (\<lambda>n. ''id'' @ str_nat n),
      uuid_ctr = 0,
      xps_reader = (\<lambda>b. d),
      raises = (\<lambda>n c. None),
      calls = []\<rparr>"

definition world_boom :: world where
  "world_boom = (world_of doc3)\<lparr>raises := (\<lambda>n c. if c = Load_page 1 then Some ''boom'' else None)\<rparr>"

definition report_xps :: upload_file where
  "report_xps = \<lparr>filename = ''Report.XPS'', content = [80, 75, 3, 4]\<rparr>"

definition report_txt :: upload_file where
  "report_txt = \<lparr>filename = ''report.txt'', content = [104, 105]\<rparr>"

section \<open>Runs in which no library call raises\<close>

lemma quiet_upd [simp]:
  "quiet (w\<lparr>calls := cs\<rparr>) = quiet w"
  "quiet (w\<lparr>files := fs\<rparr>) = quiet w"
  "quiet (w\<lparr>uuid_ctr := k\<rparr>) = quiet w"
  by (simp_all add: quiet_def)

lemma lib_quiet: "quiet w \<Longrightarrow> lib c w = (Inr (), w\<lparr>calls := calls w @ [c]\<rparr>)"
  by (simp add: lib_def quiet_def)

lemma save_file_quiet: "quiet w \<Longrightarrow> save_file file w = (Inr (upload_path w), saved file w)"
  by (simp add: save_file_def uuid4_def lib_quiet Let_def upload_path_def saved_def)

lemma saved_simps [simp]:
  "quiet (saved file w) = quiet w"
  "files (saved file w) (upload_path w) = Some (Upload (content file))"
  "xps_reader (saved file w) = xps_reader w"
  "uuid_src (saved file w) = uuid_src w"
  "uuid_ctr (saved file w) = Suc (uuid_ctr w)"
  "calls (saved file w) = calls w @ [Open_wb (upload_path w), Upload_read, File_write (upload_path w)]"
  by (simp_all add: saved_def)

lemma fitz_open_quiet:
  "quiet w \<Longrightarrow> files w p = Some (Upload b) \<Longrightarrow>
   fitz_open p w = (Inr (xps_reader w b), w\<lparr>calls := calls w @ [Fitz_open p]\<rparr>)"
  by (simp add: fitz_open_def lib_quiet)

lemma load_page_quiet:
  "quiet w \<Longrightarrow> i < len doc \<Longrightarrow>
   load_page doc i w = (Inr (pages doc ! i), w\<lparr>calls := calls w @ [Load_page i]\<rparr>)"
  by (simp add: load_page_def then_do_def lib_quiet)

lemma get_text_quiet:
  "quiet w \<Longrightarrow> get_text pg i w = (Inr (page_text pg), w\<lparr>calls := calls w @ [Get_text i]\<rparr>)"
  by (simp add: get_text_def then_do_def lib_quiet ret_def)

lemma get_pixmap_quiet:
  "quiet w \<Longrightarrow> get_pixmap pg i w = (Inr (page_pixmap pg), w\<lparr>calls := calls w @ [Get_pixmap i]\<rparr>)"
  by (simp add: get_pixmap_def then_do_def lib_quiet ret_def)

lemma search_for_quiet:
  "quiet w \<Longrightarrow> search_for pg i needle w =
     (Inr (if needle = [] then None else Some (page_hits pg needle)),
      w\<lparr>calls := calls w @ [Search_for i needle]\<rparr>)"
  by (simp add: search_for_def then_do_def lib_quiet ret_def)

lemma doc_save_quiet:
  "quiet w \<Longrightarrow> pages doc \<noteq> [] \<Longrightarrow> doc_save doc p w =
     (Inr (), w\<lparr>calls := calls w @ [Doc_save p], files := (files w)(p \<mapsto> Pdf doc)\<rparr>)"
  by (simp add: doc_save_def then_do_def lib_quiet len_def)

lemma doc_save_zero_pages:
  "quiet w \<Longrightarrow> pages doc = [] \<Longrightarrow> doc_save doc p w =
     (Inl ''cannot save with zero pages'', w\<lparr>calls := calls w @ [Doc_save p]\<rparr>)"
  by (simp add: doc_save_def then_do_def lib_quiet len_def)

lemma pdf_only_quiet:
  "quiet w \<Longrightarrow> is_pdf doc \<Longrightarrow> pdf_only doc c w = (Inr (), w\<lparr>calls := calls w @ [c]\<rparr>)"
  by (simp add: pdf_only_def then_do_def lib_quiet)

lemma pdf_only_refused:
  "quiet w \<Longrightarrow> \<not> is_pdf doc \<Longrightarrow> pdf_only doc c w = (Inl ''is no PDF'', w\<lparr>calls := calls w @ [c]\<rparr>)"
  by (simp add: pdf_only_def then_do_def lib_quiet)

subsection \<open>The finally suite\<close>

lemma files_finally [simp]: "files (finally_suite doc p w) = (files w)(p := None)"
  by (auto simp add: finally_suite_def cleanup_def os_remove_def doc_close_def)

lemma calls_finally:
  "calls (finally_suite doc p w) =
     calls w @ (if truthy doc then [Doc_close] else []) @ (if files w p \<noteq> None then [Os_remove p] else [])"
  by (simp add: finally_suite_def cleanup_def os_remove_def doc_close_def)

subsection \<open>Reading\<close>

lemma read_pages_quiet:
  "quiet w \<Longrightarrow> \<forall>i\<in>set js. i < len doc \<Longrightarrow>
   read_pages doc js acc w =
     (Inr (acc @ concat (map (\<lambda>i. page_text (pages doc ! i) @ page_separator) js)),
      w\<lparr>calls := calls w @ concat (map (\<lambda>i. [Load_page i, Get_text i]) js)\<rparr>)"
proof (induction js arbitrary: acc w)
  case Nil
  then show ?case by (simp add: ret_def)
next
  case (Cons j js)
  then show ?case
    by (simp add: then_do_def load_page_quiet get_text_quiet)
qed

lemma read_xps_try_quiet:
  "quiet w \<Longrightarrow> files w p = Some (Upload b) \<Longrightarrow>
   read_xps_try p w =
     (Inr (JSONResponse (metadata (xps_reader w b)) (len (xps_reader w b))
            (concat (map (\<lambda>i. page_text (pages (xps_reader w b) ! i) @ page_separator)
                       [0..<len (xps_reader w b)]))),
      Some (xps_reader w b),
      w\<lparr>calls := calls w @ [Fitz_open p] @
           concat (map (\<lambda>i. [Load_page i, Get_text i]) [0..<len (xps_reader w b)])\<rparr>)"
  by (simp add: read_xps_try_def fitz_open_quiet read_pages_quiet)

lemma read_xps_quiet:
  assumes "quiet w" "endswith (lower (filename file)) ''.xps''"
  shows "read_xps file w =
     (Inr (JSONResponse (metadata (source_doc file w)) (len (source_doc file w))
            (concat (map (\<lambda>i. page_text (pages (source_doc file w) ! i) @ page_separator)
                       [0..<len (source_doc file w)]))),
      finally_suite (Some (source_doc file w)) (upload_path w)
        ((saved file w)\<lparr>calls := calls (saved file w) @ [Fitz_open (upload_path w)] @
           concat (map (\<lambda>i. [Load_page i, Get_text i]) [0..<len (source_doc file w)])\<rparr>))"
  using assms
  by (simp add: read_xps_def save_file_quiet read_xps_try_quiet [where b = "content file"] source_doc_def)

subsection \<open>Images\<close>

lemma render_pages_quiet:
  "quiet w \<Longrightarrow> \<forall>i\<in>set js. i < len doc \<Longrightarrow>
   render_pages doc js zipf w =
     (Inr (zipf @ map (page_entry doc) js),
      w\<lparr>calls := calls w @ concat (map (render_calls doc) js)\<rparr>)"
proof (induction js arbitrary: zipf w)
  case Nil
  then show ?case by (simp add: ret_def)
next
  case (Cons j js)
  then show ?case
    by (simp add: then_do_def load_page_quiet get_pixmap_quiet image_frombytes_def
        image_save_png_def zip_writestr_def lib_quiet ret_def page_entry_def render_calls_def)
qed

lemma zip_pages_quiet:
  "quiet w \<Longrightarrow>
   zip_pages doc w =
     (Inr (map (page_entry doc) [0..<len doc]),
      w\<lparr>calls := calls w @ [ZipFile_open] @ concat (map (render_calls doc) [0..<len doc]) @
                  [ZipFile_close]\<rparr>)"
  by (simp add: zip_pages_def lib_quiet render_pages_quiet)

lemma preview_all_xps_quiet:
  assumes "quiet w" "endswith (lower (filename file)) ''.xps''"
  shows "preview_all_xps file w =
     (Inr (StreamingResponse (map (page_entry (source_doc file w)) [0..<len (source_doc file w)])
        ''application/zip'' [(''Content-Disposition'', ''attachment; filename=preview_pages.zip'')]),
      finally_suite (Some (source_doc file w)) (upload_path w)
        ((saved file w)\<lparr>calls := calls (saved file w) @ [Fitz_open (upload_path w), ZipFile_open] @
           concat (map (render_calls (source_doc file w)) [0..<len (source_doc file w)]) @
           [ZipFile_close]\<rparr>))"
  using assms
  by (simp add: preview_all_xps_def save_file_quiet preview_all_xps_try_def
      fitz_open_quiet [where b = "content file"] zip_pages_quiet source_doc_def)

lemma convert_images_quiet:
  assumes "quiet w" "endswith (lower (filename file)) ''.xps''"
  shows "convert_xps ''images'' file w =
     (Inr (StreamingResponse (map (page_entry (source_doc file w)) [0..<len (source_doc file w)])
        ''application/zip'' [(''Content-Disposition'', ''attachment; filename=images.zip'')]),
      finally_suite (Some (source_doc file w)) (upload_path w)
        ((saved file w)\<lparr>uuid_ctr := Suc (Suc (uuid_ctr w)),
           calls := calls (saved file w) @ [Fitz_open (upload_path w), ZipFile_open] @
           concat (map (render_calls (source_doc file w)) [0..<len (source_doc file w)]) @
           [ZipFile_close]\<rparr>))"
  using assms
  by (simp add: convert_xps_def SUPPORTED_CONVERSIONS_def save_file_quiet convert_xps_try_def
      fitz_open_quiet [where b = "content file"] uuid4_def then_do_def zip_pages_quiet ret_def
      source_doc_def Let_def)

subsection \<open>Paths\<close>

lemma os_path_join_last: "b \<noteq> [] \<Longrightarrow> last (os_path_join a b) = last b"
  by (simp add: os_path_join_def)

lemma upload_path_last: "last (upload_path w) = CHR ''s''"
  by (simp add: upload_path_def os_path_join_last)

lemma upload_path_neq_pdf: "upload_path w \<noteq> os_path_join a (u @ ''.pdf'')"
proof
  assume "upload_path w = os_path_join a (u @ ''.pdf'')"
  then have "last (upload_path w) = last (os_path_join a (u @ ''.pdf''))" by simp
  then show False by (simp add: upload_path_last os_path_join_last)
qed

lemma upload_path_neq_docx: "upload_path w \<noteq> os_path_join a (u @ ''.docx'')"
proof
  assume "upload_path w = os_path_join a (u @ ''.docx'')"
  then have "last (upload_path w) = last (os_path_join a (u @ ''.docx''))" by simp
  then show False by (simp add: upload_path_last os_path_join_last)
qed

subsection \<open>PDF\<close>

lemma convert_pdf_quiet:
  assumes "quiet w" "endswith (lower (filename file)) ''.xps''" "pages (source_doc file w) \<noteq> []"
  shows "convert_xps ''pdf'' file w =
     (Inr (FileResponse (os_path_join RESULT_FOLDER (result_name w @ ''.pdf'')) ''application/pdf''
             (result_name w @ ''.pdf'')),
      finally_suite (Some (source_doc file w)) (upload_path w)
        ((saved file w)\<lparr>uuid_ctr := Suc (Suc (uuid_ctr w)),
           calls := calls (saved file w) @ [Fitz_open (upload_path w),
              Doc_save (os_path_join RESULT_FOLDER (result_name w @ ''.pdf''))],
           files := (files (saved file w))
              (os_path_join RESULT_FOLDER (result_name w @ ''.pdf'') \<mapsto> Pdf (source_doc file w))\<rparr>))"
  using assms
  by (simp add: convert_xps_def SUPPORTED_CONVERSIONS_def save_file_quiet convert_xps_try_def
      fitz_open_quiet [where b = "content file"] uuid4_def then_do_def doc_save_quiet ret_def
      source_doc_def Let_def supported_conversion_def result_name_def)

subsection \<open>DOCX\<close>

lemma docx_pages_quiet:
  "quiet w \<Longrightarrow> \<forall>i\<in>set js. i < len doc \<Longrightarrow>
   docx_pages doc js word_doc w =
     (Inr (word_doc @ concat (map (docx_blocks doc) js)),
      w\<lparr>calls := calls w @ concat (map (docx_calls doc) js)\<rparr>)"
proof (induction js arbitrary: word_doc w)
  case Nil
  then show ?case by (simp add: ret_def)
next
  case (Cons j js)
  then show ?case
    by (simp add: then_do_def load_page_quiet get_text_quiet add_paragraph_def add_page_break_def
        lib_quiet ret_def docx_blocks_def docx_calls_def)
qed

lemma docx_blocks_upt:
  "k \<le> n \<Longrightarrow> n = len doc \<Longrightarrow>
   concat (map (docx_blocks doc) [k..<n]) =
   paragraphs_with_breaks (map (\<lambda>i. page_text (pages doc ! i)) [k..<n])"
proof (induction k rule: inc_induct)
  case base
  then show ?case by simp
next
  case (step m)
  show ?case
  proof (cases "Suc m = n")
    case True
    then show ?thesis using step by (simp add: upt_rec [of m] docx_blocks_def)
  next
    case False
    then have less: "Suc m < n" using step by simp
    then have "[m..<n] = m # Suc m # [Suc (Suc m)..<n]"
      by (simp add: upt_rec [of m] upt_rec [of "Suc m"])
    moreover have "[Suc m..<n] = Suc m # [Suc (Suc m)..<n]"
      using less by (simp add: upt_rec [of "Suc m"])
    ultimately show ?thesis using step less
      by (simp add: docx_blocks_def)
  qed
qed

lemma docx_blocks_all:
  "concat (map (docx_blocks doc) [0..<len doc]) = paragraphs_with_breaks (map page_text (pages doc))"
proof -
  have "map (\<lambda>i. page_text (pages doc ! i)) [0..<len doc] = map page_text (pages doc)"
    by (rule nth_equalityI) (simp_all add: len_def)
  then show ?thesis using docx_blocks_upt [of 0 "len doc" doc] by simp
qed

lemma paragraph_texts_breaks: "paragraph_texts (paragraphs_with_breaks ts) = ts"
  by (induction ts rule: paragraphs_with_breaks.induct) simp_all

lemma length_breaks: "length (paragraphs_with_breaks ts) = 2 * length ts - 1"
  by (induction ts rule: paragraphs_with_breaks.induct) simp_all

lemma page_break_count_breaks: "page_break_count (paragraphs_with_breaks ts) = length ts - 1"
  by (induction ts rule: paragraphs_with_breaks.induct) simp_all

lemma convert_docx_quiet:
  assumes "quiet w" "endswith (lower (filename file)) ''.xps''"
  shows "convert_xps ''docx'' file w =
     (Inr (FileResponse (os_path_join RESULT_FOLDER (result_name w @ ''.docx''))
             ''application/vnd.openxmlformats-officedocument.wordprocessingml.document''
             (result_name w @ ''.docx'')),
      finally_suite (Some (source_doc file w)) (upload_path w)
        ((saved file w)\<lparr>uuid_ctr := Suc (Suc (uuid_ctr w)),
           calls := calls (saved file w) @ [Fitz_open (upload_path w), Document_new] @
              concat (map (docx_calls (source_doc file w)) [0..<len (source_doc file w)]) @
              [Word_save (os_path_join RESULT_FOLDER (result_name w @ ''.docx''))],
           files := (files (saved file w))
              (os_path_join RESULT_FOLDER (result_name w @ ''.docx'') \<mapsto>
                 Docx (paragraphs_with_breaks (map page_text (pages (source_doc file w)))))\<rparr>))"
  using assms
  by (simp add: convert_xps_def SUPPORTED_CONVERSIONS_def save_file_quiet convert_xps_try_def
      fitz_open_quiet [where b = "content file"] uuid4_def then_do_def document_new_def lib_quiet
      ret_def docx_pages_quiet word_save_def source_doc_def Let_def supported_conversion_def
      result_name_def docx_blocks_all)

subsection \<open>Text replacement\<close>

lemma page_edit_appended:
  "i < len doc \<Longrightarrow> page_edit i e (edits_appended i es doc) = edits_appended i (es @ [e]) doc"
  by (simp add: page_edit_def edits_appended_def len_def)

lemma edits_appended_Nil: "edits_appended i [] doc = doc"
  by (simp add: edits_appended_def)

lemma len_edits_appended [simp]: "len (edits_appended i es doc) = len doc"
  by (simp add: edits_appended_def len_def)

lemma is_pdf_edits_appended [simp]: "is_pdf (edits_appended i es doc) = is_pdf doc"
  by (simp add: edits_appended_def)

lemma edit_instances_quiet:
  "quiet w \<Longrightarrow> i < len doc \<Longrightarrow> insts = [] \<or> is_pdf doc \<Longrightarrow>
   edit_instances i new_text insts (edits_appended i es doc) w =
     (Inr (), edits_appended i (es @ concat (map (instance_edits new_text) insts)) doc,
      w\<lparr>calls := calls w @ concat (map (instance_calls i new_text) insts)\<rparr>)"
proof (induction insts arbitrary: es w)
  case Nil
  then show ?case by simp
next
  case (Cons inst insts)
  then have pdf: "is_pdf doc" by simp
  have "edit_instances i new_text (inst # insts) (edits_appended i es doc) w =
        edit_instances i new_text insts (edits_appended i (es @ instance_edits new_text inst) doc)
          (w\<lparr>calls := calls w @ instance_calls i new_text inst\<rparr>)"
    using Cons.prems(1,2) pdf
    by (simp add: add_redact_annot_def apply_redactions_def insert_text_def pdf_only_quiet
        page_edit_appended instance_edits_def instance_calls_def Let_def)
  then show ?case
    using Cons.prems(1,2) pdf
      Cons.IH [of "w\<lparr>calls := calls w @ instance_calls i new_text inst\<rparr>"
        "es @ instance_edits new_text inst"]
    by simp
qed

lemma edits_appended_replaced:
  "i < len doc \<Longrightarrow>
   edits_appended i (concat (map (instance_edits new_text) (page_hits (pages doc ! i) old_text))) doc =
   doc\<lparr>pages := (pages doc)[i := replaced_page old_text new_text (pages doc ! i)]\<rparr>"
  by (simp add: edits_appended_def replaced_page_def)

lemma replaced_on_Nil: "replaced_on [] old_text new_text doc = doc"
  by (simp add: replaced_on_def len_def map_nth)

lemma replaced_on_all: "replaced_on [0..<len doc] old_text new_text doc = replaced old_text new_text doc"
proof -
  have "map (\<lambda>j. if j \<in> set [0..<len doc] then replaced_page old_text new_text (pages doc ! j)
                  else pages doc ! j) [0..<len doc] =
        map (replaced_page old_text new_text) (pages doc)"
    by (rule nth_equalityI) (simp_all add: len_def)
  then show ?thesis by (simp add: replaced_on_def replaced_def)
qed

lemma replaced_on_Cons:
  assumes "i < len doc" "i \<notin> set js"
  shows "replaced_on js old_text new_text
           (doc\<lparr>pages := (pages doc)[i := replaced_page old_text new_text (pages doc ! i)]\<rparr>) =
         replaced_on (i # js) old_text new_text doc"
  using assms by (auto simp add: replaced_on_def len_def nth_list_update)

lemma page_calls_update:
  "j \<noteq> i \<Longrightarrow> page_calls old_text new_text (doc\<lparr>pages := (pages doc)[i := pg]\<rparr>) j =
     page_calls old_text new_text doc j"
  by (simp add: page_calls_def)

lemma edit_pages_quiet:
  "quiet w \<Longrightarrow> old_text \<noteq> [] \<Longrightarrow> distinct js \<Longrightarrow> \<forall>i\<in>set js. i < len doc \<Longrightarrow>
   is_pdf doc \<or> (\<forall>i\<in>set js. page_hits (pages doc ! i) old_text = []) \<Longrightarrow>
   edit_pages old_text new_text js doc w =
     (Inr (), replaced_on js old_text new_text doc,
      w\<lparr>calls := calls w @ concat (map (page_calls old_text new_text doc) js)\<rparr>)"
proof (induction js arbitrary: doc w)
  case Nil
  then show ?case by (simp add: replaced_on_Nil)
next
  case (Cons i js)
  let ?doc1 = "doc\<lparr>pages := (pages doc)[i := replaced_page old_text new_text (pages doc ! i)]\<rparr>"
  let ?w1 = "w\<lparr>calls := calls w @ page_calls old_text new_text doc i\<rparr>"
  have i: "i < len doc" and notin: "i \<notin> set js" using Cons.prems by simp_all
  have ok: "page_hits (pages doc ! i) old_text = [] \<or> is_pdf doc" using Cons.prems(5) by auto
  have inst: "edit_instances i new_text (page_hits (pages doc ! i) old_text) doc
                (w\<lparr>calls := calls w @ [Load_page i, Search_for i old_text]\<rparr>) =
              (Inr (), ?doc1, ?w1)"
    using edit_instances_quiet [of "w\<lparr>calls := calls w @ [Load_page i, Search_for i old_text]\<rparr>"
        i doc "page_hits (pages doc ! i) old_text" new_text "[]"] Cons.prems(1) i ok
    by (simp add: edits_appended_Nil edits_appended_replaced page_calls_def)
  have step: "edit_pages old_text new_text (i # js) doc w = edit_pages old_text new_text js ?doc1 ?w1"
    using Cons.prems(1,2) i inst by (simp add: load_page_quiet search_for_quiet)
  have len1: "len ?doc1 = len doc" by (simp add: len_def)
  have other: "\<forall>j\<in>set js. pages ?doc1 ! j = pages doc ! j"
  proof
    fix j assume "j \<in> set js"
    then have "i \<noteq> j" using notin by auto
    then show "pages ?doc1 ! j = pages doc ! j" by simp
  qed
  have ok1: "is_pdf ?doc1 \<or> (\<forall>j\<in>set js. page_hits (pages ?doc1 ! j) old_text = [])"
    using Cons.prems(5) other by auto
  have calls1: "map (page_calls old_text new_text ?doc1) js = map (page_calls old_text new_text doc) js"
  proof (rule map_cong)
    fix j assume "j \<in> set js"
    then have "j \<noteq> i" using notin by auto
    then show "page_calls old_text new_text ?doc1 j = page_calls old_text new_text doc j"
      by (rule page_calls_update)
  qed simp
  have "edit_pages old_text new_text js ?doc1 ?w1 =
        (Inr (), replaced_on js old_text new_text ?doc1,
         ?w1\<lparr>calls := calls ?w1 @ concat (map (page_calls old_text new_text ?doc1) js)\<rparr>)"
    using Cons.prems(1,2,3,4) len1 ok1 by (intro Cons.IH) simp_all
  then show ?case using step calls1 replaced_on_Cons [OF i notin] by simp
qed

lemma occurs_nowhere_nth:
  "occurs_nowhere old_text doc \<Longrightarrow> \<forall>i\<in>set [0..<len doc]. page_hits (pages doc ! i) old_text = []"
  by (simp add: occurs_nowhere_def list_all_iff len_def)

lemma edit_xps_quiet:
  assumes "quiet w" "endswith (lower (filename file)) ''.xps''"
    and "old_text \<noteq> []" "pages (source_doc file w) \<noteq> []"
    and "is_pdf (source_doc file w) \<or> occurs_nowhere old_text (source_doc file w)"
  shows "edit_xps file old_text new_text w =
     (Inr (FileResponse (os_path_join RESULT_FOLDER (''edited_'' @ result_name w @ ''.pdf''))
             ''application/pdf'' (''edited_'' @ result_name w @ ''.pdf'')),
      finally_suite (Some (replaced old_text new_text (source_doc file w))) (upload_path w)
        ((saved file w)\<lparr>uuid_ctr := Suc (Suc (uuid_ctr w)),
           calls := calls (saved file w) @ [Fitz_open (upload_path w)] @
              concat (map (page_calls old_text new_text (source_doc file w)) [0..<len (source_doc file w)]) @
              [Doc_save (os_path_join RESULT_FOLDER (''edited_'' @ result_name w @ ''.pdf''))],
           files := (files (saved file w))
              (os_path_join RESULT_FOLDER (''edited_'' @ result_name w @ ''.pdf'') \<mapsto>
                 Pdf (replaced old_text new_text (source_doc file w)))\<rparr>))"
proof -
  have ok: "is_pdf (source_doc file w) \<or>
      (\<forall>i\<in>set [0..<len (source_doc file w)]. page_hits (pages (source_doc file w) ! i) old_text = [])"
    using assms(5) occurs_nowhere_nth [of old_text "source_doc file w"] by blast
  have loop: "\<And>w'. quiet w' \<Longrightarrow>
      edit_pages old_text new_text [0..<len (source_doc file w)] (source_doc file w) w' =
        (Inr (), replaced old_text new_text (source_doc file w),
         w'\<lparr>calls := calls w' @
             concat (map (page_calls old_text new_text (source_doc file w)) [0..<len (source_doc file w)])\<rparr>)"
    using edit_pages_quiet [OF _ assms(3) _ _ ok, of _ new_text] by (simp add: replaced_on_all)
  have nonempty: "pages (replaced old_text new_text (source_doc file w)) \<noteq> []"
    using assms(4) by (simp add: replaced_def)
  show ?thesis
    using assms(1,2) nonempty
    by (simp add: edit_xps_def save_file_quiet edit_xps_try_def
        fitz_open_quiet [where b = "content file"] uuid4_def doc_save_quiet loop
        source_doc_def [symmetric] Let_def result_name_def)
qed

lemma upload_path_neq_edited:
  "upload_path w \<noteq> os_path_join a (''edited_'' @ u @ ''.pdf'')"
  using upload_path_neq_pdf [of w a "''edited_'' @ u"] by simp


lemma truthy_replaced: "truthy (Some (replaced old_text new_text doc)) = (len doc \<noteq> 0)"
  by (simp add: truthy_def replaced_def len_def)

subsection \<open>Files and calls after a request\<close>

lemma files_docx_after:
  assumes "quiet w" "endswith (lower (filename file)) ''.xps''"
  shows "files (snd (convert_xps ''docx'' file w)) (os_path_join RESULT_FOLDER (result_name w @ ''.docx'')) =
     Some (Docx (paragraphs_with_breaks (map page_text (pages (source_doc file w)))))"
  using assms upload_path_neq_docx [of w RESULT_FOLDER "result_name w"]
  by (simp add: convert_docx_quiet)

lemma files_pdf_after:
  assumes "quiet w" "endswith (lower (filename file)) ''.xps''" "pages (source_doc file w) \<noteq> []"
  shows "files (snd (convert_xps ''pdf'' file w)) (os_path_join RESULT_FOLDER (result_name w @ ''.pdf'')) =
     Some (Pdf (source_doc file w))"
  using assms upload_path_neq_pdf [of w RESULT_FOLDER "result_name w"]
  by (simp add: convert_pdf_quiet)

lemma files_edit_after:
  assumes "quiet w" "endswith (lower (filename file)) ''.xps''"
    and "old_text \<noteq> []" "pages (source_doc file w) \<noteq> []"
    and "is_pdf (source_doc file w) \<or> occurs_nowhere old_text (source_doc file w)"
  shows "files (snd (edit_xps file old_text new_text w))
           (os_path_join RESULT_FOLDER (''edited_'' @ result_name w @ ''.pdf'')) =
         Some (Pdf (replaced old_text new_text (source_doc file w)))"
  using assms upload_path_neq_edited [of w RESULT_FOLDER "result_name w"]
  by (simp add: edit_xps_quiet)

lemma calls_edit_after:
  assumes "quiet w" "endswith (lower (filename file)) ''.xps''"
    and "old_text \<noteq> []" "pages (source_doc file w) \<noteq> []"
    and "is_pdf (source_doc file w) \<or> occurs_nowhere old_text (source_doc file w)"
  shows "calls (snd (edit_xps file old_text new_text w)) =
     calls w @ [Open_wb (upload_path w), Upload_read, File_write (upload_path w), Fitz_open (upload_path w)] @
     concat (map (page_calls old_text new_text (source_doc file w)) [0..<len (source_doc file w)]) @
     [Doc_save (os_path_join RESULT_FOLDER (''edited_'' @ result_name w @ ''.pdf''))] @
     [Doc_close, Os_remove (upload_path w)]"
  using assms upload_path_neq_edited [of w RESULT_FOLDER "result_name w"]
  by (simp add: edit_xps_quiet calls_finally truthy_replaced len_def)

subsection \<open>Page names\<close>

lemma of_char_digit: "d < 10 \<Longrightarrow> (of_char (digit_char d) :: nat) = 48 + d"
  by (simp add: digit_char_def)

lemma nat_of_digits_str_nat: "nat_of_digits (str_nat n) = n"
proof (induction n rule: str_nat.induct)
  case (1 n)
  show ?case
  proof (cases "n < 10")
    case True
    then show ?thesis by (simp add: str_nat.simps [of n] nat_of_digits_def of_char_digit)
  next
    case False
    then have "nat_of_digits (str_nat (n div 10)) = n div 10" using 1 by simp
    then show ?thesis using False
      by (simp add: str_nat.simps [of n] nat_of_digits_def of_char_digit)
  qed
qed

lemma str_nat_inj:
  assumes "str_nat m = str_nat n"
  shows "m = n"
proof -
  have "nat_of_digits (str_nat m) = nat_of_digits (str_nat n)" by (simp only: assms)
  then show ?thesis by (simp only: nat_of_digits_str_nat)
qed

lemma page_names_distinct: "distinct (map (\<lambda>i. ''page_'' @ str_nat (i + 1) @ ''.png'') [0..<n])"
  by (auto simp add: distinct_map inj_on_def dest: str_nat_inj)

lemma zip_writes_append: "zip_writes (xs @ ys) = zip_writes xs @ zip_writes ys"
  by (induction xs rule: zip_writes.induct) simp_all

lemma zip_writes_render:
  "zip_writes (concat (map (render_calls doc) js)) = map (\<lambda>i. ''page_'' @ str_nat (i + 1) @ ''.png'') js"
  by (induction js) (simp_all add: zip_writes_append render_calls_def)

lemma zip_writes_finally: "zip_writes (calls (finally_suite doc p w)) = zip_writes (calls w)"
  by (simp add: calls_finally zip_writes_append)

lemma length_separated:
  "length (concat (map (\<lambda>i. f i @ s) js)) = sum_list (map (\<lambda>i. length (f i)) js) + length js * length s"
  by (induction js) simp_all

subsection \<open>Cleanup\<close>

text \<open>Whatever the library calls do, the saved input file is gone after the request;
  a document with at least one page is closed once.\<close>

lemma input_file_removed:
  assumes "endswith (lower (filename file)) ''.xps''" and "save_file file w = (Inr p, w1)"
  shows "files (snd (read_xps file w)) p = None"
    and "files (snd (preview_all_xps file w)) p = None"
    and "files (snd (edit_xps file old_text new_text w)) p = None"
    and "map_of SUPPORTED_CONVERSIONS conversion_type \<noteq> None \<Longrightarrow>
         files (snd (convert_xps conversion_type file w)) p = None"
  using assms
  by (auto simp add: read_xps_def preview_all_xps_def edit_xps_def convert_xps_def
      split: prod.splits sum.splits)

lemma number_of_append: "number_of c (xs @ ys) = number_of c xs + number_of c ys"
  by (simp add: number_of_def)

lemma number_of_read_calls: "number_of Doc_close (concat (map (\<lambda>i. [Load_page i, Get_text i]) js)) = 0"
  by (induction js) (simp_all add: number_of_def)

lemma handle_closed_once:
  assumes "quiet w" and "endswith (lower (filename file)) ''.xps''"
    and "pages (source_doc file w) \<noteq> []"
  shows "number_of Doc_close (calls (snd (read_xps file w))) = number_of Doc_close (calls w) + 1"
  using assms
  by (simp add: read_xps_quiet calls_finally truthy_def len_def number_of_append number_of_read_calls)
     (simp add: number_of_def)

subsection \<open>The sample inputs\<close>

lemma str_nat_small:
  "str_nat 0 = ''0''" "str_nat 1 = ''1''" "str_nat 2 = ''2''" "str_nat 3 = ''3''"
  "str_nat (Suc 0) = ''1''" "str_nat (Suc (Suc 0)) = ''2''" "str_nat (Suc (Suc (Suc 0))) = ''3''"
  by code_simp+

lemma upt_3: "[0..<3] = [0, 1, 2]"
  by (simp add: upt_rec)

lemma quiet_world_of: "quiet (world_of d)"
  by (simp add: quiet_def world_of_def)

lemma report_xps_accepted: "endswith (lower (filename report_xps)) ''.xps''"
  by code_simp

lemma report_txt_rejected: "\<not> endswith (lower (filename report_txt)) ''.xps''"
  by code_simp

lemma sample_paths:
  "upload_path (world_of d) = ''uploads/id0.xps''"
  "result_name (world_of d) = ''id1''"
  "os_path_join RESULT_FOLDER ''id1.docx'' = ''results/id1.docx''"
  "os_path_join RESULT_FOLDER ''id1.pdf'' = ''results/id1.pdf''"
  "os_path_join RESULT_FOLDER ''edited_id1.pdf'' = ''results/edited_id1.pdf''"
  by (simp_all add: upload_path_def result_name_def world_of_def os_path_join_def UPLOAD_FOLDER_def
      RESULT_FOLDER_def str_nat_small)

lemma sample_doc:
  "source_doc f (world_of d) = d"
  "uuid_src (world_of d) (Suc (uuid_ctr (world_of d))) = ''id1''"
  "pages doc3 = [page_intro, page_draft, page_last]"
  "metadata doc3 = [(''title'', ''Report'')]"
  "pages doc0 = []"
  "metadata doc0 = []"
  "pages pdf3 = [page_intro, page_draft, page_last]"
  "is_pdf pdf3" "\<not> is_pdf doc3"
  by (simp_all add: source_doc_def world_of_def doc3_def doc0_def pdf3_def str_nat_small)

lemma sample_pages:
  "page_text page_intro = ''Intro''" "page_text page_draft = ''Draft copy''"
  "page_text page_last = ''The end''"
  "page_pixmap page_intro = \<lparr>width = 2, height = 1, samples = [0, 0, 0, 255, 255, 255]\<rparr>"
  "page_pixmap page_draft = \<lparr>width = 1, height = 1, samples = [9, 9, 9]\<rparr>"
  "page_pixmap page_last = \<lparr>width = 1, height = 2, samples = [1, 2, 3, 4, 5, 6]\<rparr>"
  "page_hits page_intro needle = []"
  "page_hits page_draft needle = (if needle = ''Draft'' then [draft_rect] else [])"
  "page_hits page_last needle = []"
  by (simp_all add: page_intro_def page_draft_def page_last_def)

lemma sample_rect: "x0 draft_rect = 72" "y0 draft_rect = 100"
  by (simp_all add: draft_rect_def)


lemma boom_fields:
  "raises world_boom n c = (if c = Load_page 1 then Some ''boom'' else None)"
  "files world_boom = Map.empty" "calls world_boom = []" "uuid_ctr world_boom = 0"
  "uuid_src world_boom k = ''id'' @ str_nat k" "xps_reader world_boom b = doc3"
  by (simp_all add: world_boom_def world_of_def)

lemma boom_path: "upload_path world_boom = ''uploads/id0.xps''"
  by (simp add: upload_path_def boom_fields os_path_join_def UPLOAD_FOLDER_def str_nat_small)

lemma boom_saved: "save_file report_xps world_boom = (Inr ''uploads/id0.xps'', saved report_xps world_boom)"
  by (simp add: save_file_def uuid4_def lib_def Let_def saved_def upload_path_def boom_fields
      os_path_join_def UPLOAD_FOLDER_def str_nat_small)

lemma boom_saved_fields:
  "raises (saved report_xps world_boom) n c = (if c = Load_page 1 then Some ''boom'' else None)"
  "files (saved report_xps world_boom) ''uploads/id0.xps'' = Some (Upload (content report_xps))"
  "xps_reader (saved report_xps world_boom) b = doc3"
  "uuid_src (saved report_xps world_boom) k = ''id'' @ str_nat k"
  by (simp_all add: saved_def boom_fields upload_path_def os_path_join_def UPLOAD_FOLDER_def str_nat_small)

lemma boom_read: "fst (read_xps_try ''uploads/id0.xps'' (saved report_xps world_boom)) = Inl ''boom''"
  by (simp add: read_xps_try_def fitz_open_def lib_def boom_saved_fields boom_fields boom_path len_def sample_doc upt_3
      then_do_def load_page_def get_text_def ret_def)

lemma boom_preview:
  "fst (preview_all_xps_try ''uploads/id0.xps'' (saved report_xps world_boom)) = Inl ''boom''"
  by (simp add: preview_all_xps_try_def zip_pages_def fitz_open_def lib_def boom_saved_fields boom_fields boom_path len_def
      sample_doc upt_3 then_do_def load_page_def get_pixmap_def image_frombytes_def image_save_png_def
      zip_writestr_def ret_def)

lemma boom_images:
  "fst (convert_xps_try ''images'' ''uploads/id0.xps'' (saved report_xps world_boom)) = Inl ''boom''"
  by (simp add: convert_xps_try_def uuid4_def Let_def zip_pages_def fitz_open_def lib_def
      boom_saved_fields boom_fields boom_path len_def
      sample_doc upt_3 then_do_def load_page_def get_pixmap_def image_frombytes_def image_save_png_def
      zip_writestr_def ret_def split: prod.splits)

lemma boom_edit:
  "fst (edit_xps_try ''Draft'' ''Final'' ''uploads/id0.xps'' (saved report_xps world_boom)) = Inl ''boom''"
  by (simp add: edit_xps_try_def fitz_open_def lib_def boom_saved_fields boom_fields boom_path len_def
      sample_doc upt_3 then_do_def load_page_def search_for_def ret_def sample_pages)

section \<open>Properties\<close>

text \<open>
  C1. For a valid document of N pages, \<open>POST /read-xps\<close> answers with the metadata, the
  page count N, and the text made of every page's text, in ascending page order, each
  followed by the separator: N separators are appended, one of them after the last page,
  so the text is as long as the page texts together plus N separators.
\<close>

theorem read_xps_text:
  assumes "quiet w" and "endswith (lower (filename file)) ''.xps''"
  shows "fst (read_xps file w) =
           Inr (JSONResponse (metadata (source_doc file w)) (length (pages (source_doc file w)))
                  (concat (map (\<lambda>i. page_text (pages (source_doc file w) ! i) @ page_separator)
                     [0..<length (pages (source_doc file w))]))) \<and>
         length (concat (map (\<lambda>i. page_text (pages (source_doc file w) ! i) @ page_separator)
                     [0..<length (pages (source_doc file w))])) =
           sum_list (map (\<lambda>i. length (page_text (pages (source_doc file w) ! i)))
                     [0..<length (pages (source_doc file w))]) +
           length (pages (source_doc file w)) * length page_separator"
  using assms by (simp add: read_xps_quiet len_def length_separated)

theorem read_xps_text_witness:
  "quiet (world_of doc3) \<and> endswith (lower (filename report_xps)) ''.xps'' \<and>
   fst (read_xps report_xps (world_of doc3)) =
     Inr (JSONResponse [(''title'', ''Report'')] 3
            (''Intro'' @ page_separator @ ''Draft copy'' @ page_separator @ ''The end'' @ page_separator))"
  using read_xps_text [of "world_of doc3" report_xps] quiet_world_of [of doc3] report_xps_accepted
  by (simp add: source_doc_def world_of_def doc3_def upt_3 page_intro_def page_draft_def page_last_def)

text \<open>
  C2. For a valid document of N pages, \<open>POST /convert/images\<close> and \<open>POST /preview-all\<close>
  answer with an archive of exactly N entries, named \<open>page_1.png\<close> to \<open>page_N.png\<close>
  and written in ascending page order; entry i is the PNG encoding of the RGB image of
  page i's pixmap at the pixmap's width and height. The names are pairwise different.
\<close>

theorem images_zip_entries:
  assumes "quiet w" and "endswith (lower (filename file)) ''.xps''"
  shows "fst (convert_xps ''images'' file w) =
           Inr (StreamingResponse
                  (map (\<lambda>i. (''page_'' @ str_nat (i + 1) @ ''.png'',
                              PNG (Image ''RGB''
                                     (width (page_pixmap (pages (source_doc file w) ! i)),
                                      height (page_pixmap (pages (source_doc file w) ! i)))
                                     (samples (page_pixmap (pages (source_doc file w) ! i))))))
                       [0..<length (pages (source_doc file w))])
                  ''application/zip''
                  [(''Content-Disposition'', ''attachment; filename=images.zip'')]) \<and>
         fst (preview_all_xps file w) =
           Inr (StreamingResponse
                  (map (\<lambda>i. (''page_'' @ str_nat (i + 1) @ ''.png'',
                              PNG (Image ''RGB''
                                     (width (page_pixmap (pages (source_doc file w) ! i)),
                                      height (page_pixmap (pages (source_doc file w) ! i)))
                                     (samples (page_pixmap (pages (source_doc file w) ! i))))))
                       [0..<length (pages (source_doc file w))])
                  ''application/zip''
                  [(''Content-Disposition'', ''attachment; filename=preview_pages.zip'')]) \<and>
         zip_writes (calls (snd (convert_xps ''images'' file w))) =
           zip_writes (calls w) @
           map (\<lambda>i. ''page_'' @ str_nat (i + 1) @ ''.png'') [0..<length (pages (source_doc file w))] \<and>
         zip_writes (calls (snd (preview_all_xps file w))) =
           zip_writes (calls w) @
           map (\<lambda>i. ''page_'' @ str_nat (i + 1) @ ''.png'') [0..<length (pages (source_doc file w))] \<and>
         distinct (map (\<lambda>i. ''page_'' @ str_nat (i + 1) @ ''.png'')
                     [0..<length (pages (source_doc file w))])"
proof -
  have "page_entry (source_doc file w) =
        (\<lambda>i. (''page_'' @ str_nat (i + 1) @ ''.png'',
               PNG (Image ''RGB''
                      (width (page_pixmap (pages (source_doc file w) ! i)),
                       height (page_pixmap (pages (source_doc file w) ! i)))
                      (samples (page_pixmap (pages (source_doc file w) ! i))))))"
    by (rule ext) (simp add: page_entry_def)
  then show ?thesis using assms page_names_distinct [of "length (pages (source_doc file w))"]
    by (simp add: convert_images_quiet preview_all_xps_quiet len_def zip_writes_finally
        zip_writes_append zip_writes_render)
qed

theorem images_zip_entries_witness:
  "quiet (world_of doc3) \<and> endswith (lower (filename report_xps)) ''.xps'' \<and>
   fst (convert_xps ''images'' report_xps (world_of doc3)) =
     Inr (StreamingResponse
            [(''page_1.png'', PNG (Image ''RGB'' (2, 1) [0, 0, 0, 255, 255, 255])),
             (''page_2.png'', PNG (Image ''RGB'' (1, 1) [9, 9, 9])),
             (''page_3.png'', PNG (Image ''RGB'' (1, 2) [1, 2, 3, 4, 5, 6]))]
            ''application/zip'' [(''Content-Disposition'', ''attachment; filename=images.zip'')]) \<and>
   fst (preview_all_xps report_xps (world_of doc3)) =
     Inr (StreamingResponse
            [(''page_1.png'', PNG (Image ''RGB'' (2, 1) [0, 0, 0, 255, 255, 255])),
             (''page_2.png'', PNG (Image ''RGB'' (1, 1) [9, 9, 9])),
             (''page_3.png'', PNG (Image ''RGB'' (1, 2) [1, 2, 3, 4, 5, 6]))]
            ''application/zip'' [(''Content-Disposition'', ''attachment; filename=preview_pages.zip'')])"
  using images_zip_entries [of "world_of doc3" report_xps] quiet_world_of [of doc3] report_xps_accepted
  by (simp add: sample_doc sample_pages upt_3 str_nat_small)

text \<open>
  C3, as amended. For a valid document of N pages, \<open>POST /convert/docx\<close> writes a
  document whose body holds the N page texts as N text paragraphs, in ascending page
  order, with a page break after every text paragraph except the last. The page break is
  a paragraph of its own, so for N at least 1 the body has N - 1 page breaks and 2N - 1
  paragraphs in all; for N = 0 it is empty.
\<close>

theorem convert_docx_paragraphs:
  assumes "quiet w" and "endswith (lower (filename file)) ''.xps''"
  shows "fst (convert_xps ''docx'' file w) =
           Inr (FileResponse (os_path_join RESULT_FOLDER (uuid_src w (Suc (uuid_ctr w)) @ ''.docx''))
                  ''application/vnd.openxmlformats-officedocument.wordprocessingml.document''
                  (uuid_src w (Suc (uuid_ctr w)) @ ''.docx'')) \<and>
         files (snd (convert_xps ''docx'' file w))
               (os_path_join RESULT_FOLDER (uuid_src w (Suc (uuid_ctr w)) @ ''.docx'')) =
           Some (Docx (paragraphs_with_breaks (map page_text (pages (source_doc file w))))) \<and>
         paragraph_texts (docx_body (files (snd (convert_xps ''docx'' file w))
               (os_path_join RESULT_FOLDER (uuid_src w (Suc (uuid_ctr w)) @ ''.docx'')))) =
           map page_text (pages (source_doc file w)) \<and>
         length (paragraph_texts (docx_body (files (snd (convert_xps ''docx'' file w))
               (os_path_join RESULT_FOLDER (uuid_src w (Suc (uuid_ctr w)) @ ''.docx''))))) =
           length (pages (source_doc file w)) \<and>
         page_break_count (docx_body (files (snd (convert_xps ''docx'' file w))
               (os_path_join RESULT_FOLDER (uuid_src w (Suc (uuid_ctr w)) @ ''.docx'')))) =
           (if length (pages (source_doc file w)) = 0 then 0 else length (pages (source_doc file w)) - 1) \<and>
         length (docx_body (files (snd (convert_xps ''docx'' file w))
               (os_path_join RESULT_FOLDER (uuid_src w (Suc (uuid_ctr w)) @ ''.docx'')))) =
           (if length (pages (source_doc file w)) = 0 then 0
            else 2 * length (pages (source_doc file w)) - 1)"
  using assms files_docx_after [OF assms]
  by (simp add: convert_docx_quiet result_name_def docx_body_def paragraph_texts_breaks
      page_break_count_breaks length_breaks)

theorem convert_docx_paragraphs_witness:
  "quiet (world_of doc3) \<and> endswith (lower (filename report_xps)) ''.xps'' \<and>
   fst (convert_xps ''docx'' report_xps (world_of doc3)) =
     Inr (FileResponse ''results/id1.docx''
            ''application/vnd.openxmlformats-officedocument.wordprocessingml.document'' ''id1.docx'') \<and>
   files (snd (convert_xps ''docx'' report_xps (world_of doc3))) ''results/id1.docx'' =
     Some (Docx [Text_paragraph ''Intro'', Break_paragraph, Text_paragraph ''Draft copy'',
                 Break_paragraph, Text_paragraph ''The end'']) \<and>
   page_break_count (docx_body (files (snd (convert_xps ''docx'' report_xps (world_of doc3)))
                                  ''results/id1.docx'')) = 2 \<and>
   length (docx_body (files (snd (convert_xps ''docx'' report_xps (world_of doc3)))
                        ''results/id1.docx'')) = 5"
  using convert_docx_paragraphs [of "world_of doc3" report_xps] quiet_world_of [of doc3]
    report_xps_accepted
  by (simp add: sample_paths sample_doc sample_pages docx_body_def)

text \<open>
  The claim as stated promises exactly N paragraphs and N - 1 page breaks. The three-page
  document gives a body of five paragraphs, and the document without pages gives no page
  break, not minus one.
\<close>

theorem convert_docx_counterexample:
  "quiet (world_of doc3) \<and> quiet (world_of doc0) \<and>
   endswith (lower (filename report_xps)) ''.xps'' \<and>
   files (snd (convert_xps ''docx'' report_xps (world_of doc3))) ''results/id1.docx'' =
     Some (Docx [Text_paragraph ''Intro'', Break_paragraph, Text_paragraph ''Draft copy'',
                 Break_paragraph, Text_paragraph ''The end'']) \<and>
   length (docx_body (files (snd (convert_xps ''docx'' report_xps (world_of doc3)))
                        ''results/id1.docx'')) \<noteq>
     length (pages (source_doc report_xps (world_of doc3))) \<and>
   files (snd (convert_xps ''docx'' report_xps (world_of doc0))) ''results/id1.docx'' = Some (Docx []) \<and>
   int (page_break_count (docx_body (files (snd (convert_xps ''docx'' report_xps (world_of doc0)))
                                       ''results/id1.docx''))) \<noteq>
     int (length (pages (source_doc report_xps (world_of doc0)))) - 1"
proof -
  have q3: "quiet (world_of doc3)" and q0: "quiet (world_of doc0)" by (rule quiet_world_of)+
  show ?thesis
    using files_docx_after [OF q3 report_xps_accepted] files_docx_after [OF q0 report_xps_accepted]
      q3 q0 report_xps_accepted
    by (simp add: sample_paths sample_doc sample_pages docx_body_def)
qed




text \<open>
  C5. The claim asks that a handle that was opened is closed exactly once. For a
  document without pages the handle is opened and never closed: \<open>if doc:\<close> is false for a
  document of length 0. The input file is deleted all the same.
\<close>

theorem zero_page_handle_not_closed:
  "fst (read_xps report_xps (world_of doc0)) = Inr (JSONResponse [] 0 []) \<and>
   calls (snd (read_xps report_xps (world_of doc0))) =
     [Open_wb ''uploads/id0.xps'', Upload_read, File_write ''uploads/id0.xps'',
      Fitz_open ''uploads/id0.xps'', Os_remove ''uploads/id0.xps''] \<and>
   number_of (Fitz_open ''uploads/id0.xps'') (calls (snd (read_xps report_xps (world_of doc0)))) = 1 \<and>
   number_of Doc_close (calls (snd (read_xps report_xps (world_of doc0)))) = 0 \<and>
   files (snd (read_xps report_xps (world_of doc0))) ''uploads/id0.xps'' = None"
proof -
  have c: "calls (world_of doc0) = []" by (simp add: world_of_def)
  have f: "files (saved report_xps (world_of doc0)) ''uploads/id0.xps'' = Some (Upload (content report_xps))"
    using saved_simps(2) [of report_xps "world_of doc0"] by (simp add: sample_paths)
  show ?thesis
    using read_xps_quiet [OF quiet_world_of report_xps_accepted, of doc0]
    by (simp add: sample_doc sample_paths len_def calls_finally truthy_def number_of_def c f)
qed

text \<open>
  C6. The claim describes the replacement on every valid document. For a document read
  from XPS with an instance of \<open>old_text\<close> (here on the second of three pages) the first
  \<open>add_redact_annot\<close> is refused with \<open>is no PDF\<close>: the endpoint answers 500, nothing is
  inserted and nothing is saved.
\<close>

theorem edit_xps_refused_on_xps:
  "quiet (world_of doc3) \<and> endswith (lower (filename report_xps)) ''.xps'' \<and>
   fst (edit_xps report_xps ''Draft'' ''Final'' (world_of doc3)) =
     Inl (HTTPException 500 ''Failed to edit XPS: is no PDF'') \<and>
   calls (snd (edit_xps report_xps ''Draft'' ''Final'' (world_of doc3))) =
     [Open_wb ''uploads/id0.xps'', Upload_read, File_write ''uploads/id0.xps'',
      Fitz_open ''uploads/id0.xps'',
      Load_page 0, Search_for 0 ''Draft'',
      Load_page 1, Search_for 1 ''Draft'',
      Add_redact_annot 1 draft_rect,
      Doc_close, Os_remove ''uploads/id0.xps''] \<and>
   files (snd (edit_xps report_xps ''Draft'' ''Final'' (world_of doc3))) ''results/edited_id1.pdf'' = None"
proof -
  have q3: "quiet (world_of doc3)" by (rule quiet_world_of)
  have f: "files (world_of doc3) = Map.empty" and c: "calls (world_of doc3) = []"
    by (simp_all add: world_of_def)
  have e3: "edit_pages ''Draft'' ''Final'' [0..<len doc3] doc3 w = (Inl ''is no PDF'', doc3,
      w\<lparr>calls := calls w @ [Load_page 0, Search_for 0 ''Draft'', Load_page 1, Search_for 1 ''Draft'',
                              Add_redact_annot 1 draft_rect]\<rparr>)" if "quiet w" for w
    using that
    by (simp add: len_def sample_doc sample_pages upt_3 load_page_quiet search_for_quiet
        add_redact_annot_def pdf_only_refused)
  have r3: "edit_xps report_xps ''Draft'' ''Final'' (world_of doc3) =
      (Inl (HTTPException 500 ''Failed to edit XPS: is no PDF''),
       finally_suite (Some doc3) ''uploads/id0.xps''
         ((saved report_xps (world_of doc3))
            \<lparr>calls := calls (saved report_xps (world_of doc3)) @
               [Fitz_open ''uploads/id0.xps'', Load_page 0, Search_for 0 ''Draft'',
                Load_page 1, Search_for 1 ''Draft'', Add_redact_annot 1 draft_rect]\<rparr>))"
    using q3 report_xps_accepted saved_simps(2) [of report_xps "world_of doc3"]
    by (simp add: edit_xps_def save_file_quiet edit_xps_try_def
        fitz_open_quiet [where b = "content report_xps"] e3 sample_paths
        source_doc_def [symmetric] sample_doc)
  have s: "files (saved report_xps (world_of doc3)) ''uploads/id0.xps'' =
      Some (Upload (content report_xps))"
    using saved_simps(2) [of report_xps "world_of doc3"] by (simp add: sample_paths)
  have t: "truthy (Some doc3)" by (simp add: truthy_def len_def sample_doc)
  have n: "files (saved report_xps (world_of doc3)) ''results/edited_id1.pdf'' = None"
    by (simp add: saved_def f sample_paths)
  show ?thesis
    using q3 report_xps_accepted
    by (simp add: r3 calls_finally s t n c sample_paths)
qed

text \<open>
  On a document read from PDF bytes, with \<open>old_text\<close> not empty and at least one page, the
  replacement runs as the specification describes: pages in ascending order, per instance
  the redaction, its application and the insertion at \<open>(x0, y0)\<close> with size 11 in black,
  then the saving as \<open>edited_{uuid}.pdf\<close>.
\<close>

lemma edit_xps_on_pdf:
  assumes "quiet w" and "endswith (lower (filename file)) ''.xps''"
    and "old_text \<noteq> []" and "pages (source_doc file w) \<noteq> []"
    and "is_pdf (source_doc file w) \<or> occurs_nowhere old_text (source_doc file w)"
  shows "fst (edit_xps file old_text new_text w) =
           Inr (FileResponse
                  (os_path_join RESULT_FOLDER (''edited_'' @ uuid_src w (Suc (uuid_ctr w)) @ ''.pdf''))
                  ''application/pdf'' (''edited_'' @ uuid_src w (Suc (uuid_ctr w)) @ ''.pdf'')) \<and>
         (\<exists>tail. calls (snd (edit_xps file old_text new_text w)) =
           calls w @
           [Open_wb (upload_path w), Upload_read, File_write (upload_path w), Fitz_open (upload_path w)] @
           concat (map (\<lambda>i. [Load_page i, Search_for i old_text] @
                            concat (map (\<lambda>inst. [Add_redact_annot i inst, Apply_redactions i,
                                                  Insert_text i (x0 inst, y0 inst) new_text 11 (0, 0, 0)])
                                      (page_hits (pages (source_doc file w) ! i) old_text)))
                     [0..<length (pages (source_doc file w))]) @
           [Doc_save (os_path_join RESULT_FOLDER (''edited_'' @ uuid_src w (Suc (uuid_ctr w)) @ ''.pdf''))] @
           tail \<and>
           set tail \<subseteq> {Doc_close, Os_remove (upload_path w)}) \<and>
         files (snd (edit_xps file old_text new_text w))
               (os_path_join RESULT_FOLDER (''edited_'' @ uuid_src w (Suc (uuid_ctr w)) @ ''.pdf'')) =
           Some (Pdf (replaced old_text new_text (source_doc file w))) \<and>
         pages (replaced old_text new_text (source_doc file w)) =
           map (\<lambda>pg. pg\<lparr>page_edits := page_edits pg @
                  concat (map (\<lambda>inst. [Redact_annot inst, Redactions_applied,
                                        Text_inserted (x0 inst, y0 inst) new_text 11 (0, 0, 0)])
                            (page_hits pg old_text))\<rparr>)
             (pages (source_doc file w)) \<and>
         (\<forall>i < length (pages (source_doc file w)).
            page_hits (pages (source_doc file w) ! i) old_text = [] \<longrightarrow>
            pages (replaced old_text new_text (source_doc file w)) ! i = pages (source_doc file w) ! i)"
proof -
  have pc: "page_calls old_text new_text (source_doc file w) =
        (\<lambda>i. [Load_page i, Search_for i old_text] @
              concat (map (\<lambda>inst. [Add_redact_annot i inst, Apply_redactions i,
                                    Insert_text i (x0 inst, y0 inst) new_text 11 (0, 0, 0)])
                        (page_hits (pages (source_doc file w) ! i) old_text)))"
    by (rule ext) (simp add: page_calls_def instance_calls_def [abs_def])
  have untouched: "\<forall>i < length (pages (source_doc file w)).
            page_hits (pages (source_doc file w) ! i) old_text = [] \<longrightarrow>
            pages (replaced old_text new_text (source_doc file w)) ! i = pages (source_doc file w) ! i"
    by (simp add: replaced_def replaced_page_def)
  have edits: "pages (replaced old_text new_text (source_doc file w)) =
           map (\<lambda>pg. pg\<lparr>page_edits := page_edits pg @
                  concat (map (\<lambda>inst. [Redact_annot inst, Redactions_applied,
                                        Text_inserted (x0 inst, y0 inst) new_text 11 (0, 0, 0)])
                            (page_hits pg old_text))\<rparr>)
             (pages (source_doc file w))"
    by (simp add: replaced_def replaced_page_def [abs_def] instance_edits_def [abs_def])
  have trace: "\<exists>tail. calls (snd (edit_xps file old_text new_text w)) =
           calls w @
           [Open_wb (upload_path w), Upload_read, File_write (upload_path w), Fitz_open (upload_path w)] @
           concat (map (\<lambda>i. [Load_page i, Search_for i old_text] @
                            concat (map (\<lambda>inst. [Add_redact_annot i inst, Apply_redactions i,
                                                  Insert_text i (x0 inst, y0 inst) new_text 11 (0, 0, 0)])
                                      (page_hits (pages (source_doc file w) ! i) old_text)))
                     [0..<length (pages (source_doc file w))]) @
           [Doc_save (os_path_join RESULT_FOLDER (''edited_'' @ uuid_src w (Suc (uuid_ctr w)) @ ''.pdf''))] @
           tail \<and>
           set tail \<subseteq> {Doc_close, Os_remove (upload_path w)}"
    by (rule exI [of _ "[Doc_close, Os_remove (upload_path w)]"])
       (simp add: calls_edit_after [OF assms] pc len_def result_name_def)
  show ?thesis
    using files_edit_after [OF assms, of new_text] untouched trace edits
    by (simp add: edit_xps_quiet [OF assms] result_name_def)
qed

lemma edit_xps_on_pdf_sample:
  "quiet (world_of pdf3) \<and> endswith (lower (filename report_xps)) ''.xps'' \<and>
   fst (edit_xps report_xps ''Draft'' ''Final'' (world_of pdf3)) =
     Inr (FileResponse ''results/edited_id1.pdf'' ''application/pdf'' ''edited_id1.pdf'') \<and>
   calls (snd (edit_xps report_xps ''Draft'' ''Final'' (world_of pdf3))) =
     [Open_wb ''uploads/id0.xps'', Upload_read, File_write ''uploads/id0.xps'',
      Fitz_open ''uploads/id0.xps'',
      Load_page 0, Search_for 0 ''Draft'',
      Load_page 1, Search_for 1 ''Draft'',
      Add_redact_annot 1 draft_rect, Apply_redactions 1, Insert_text 1 (72, 100) ''Final'' 11 (0, 0, 0),
      Load_page 2, Search_for 2 ''Draft'',
      Doc_save ''results/edited_id1.pdf'', Doc_close, Os_remove ''uploads/id0.xps''] \<and>
   files (snd (edit_xps report_xps ''Draft'' ''Final'' (world_of pdf3))) ''results/edited_id1.pdf'' =
     Some (Pdf (pdf3\<lparr>pages :=
       [page_intro,
        page_draft\<lparr>page_edits :=
          [Redact_annot draft_rect, Redactions_applied, Text_inserted (72, 100) ''Final'' 11 (0, 0, 0)]\<rparr>,
        page_last]\<rparr>))"
proof -
  have pre: "''Draft'' \<noteq> []" "pages (source_doc report_xps (world_of pdf3)) \<noteq> []"
    "is_pdf (source_doc report_xps (world_of pdf3)) \<or>
     occurs_nowhere ''Draft'' (source_doc report_xps (world_of pdf3))"
    by (simp_all add: sample_doc)
  have c: "calls (world_of pdf3) = []" by (simp add: world_of_def)
  have e: "page_edits page_intro = []" "page_edits page_draft = []" "page_edits page_last = []"
    by (simp_all add: page_intro_def page_draft_def page_last_def)
  have r: "replaced ''Draft'' ''Final'' pdf3 =
      pdf3\<lparr>pages :=
       [page_intro,
        page_draft\<lparr>page_edits :=
          [Redact_annot draft_rect, Redactions_applied, Text_inserted (72, 100) ''Final'' 11 (0, 0, 0)]\<rparr>,
        page_last]\<rparr>"
    by (simp add: replaced_def replaced_page_def sample_doc sample_pages instance_edits_def sample_rect e)
  have t: "calls (snd (edit_xps report_xps ''Draft'' ''Final'' (world_of pdf3))) =
     [Open_wb ''uploads/id0.xps'', Upload_read, File_write ''uploads/id0.xps'',
      Fitz_open ''uploads/id0.xps'',
      Load_page 0, Search_for 0 ''Draft'',
      Load_page 1, Search_for 1 ''Draft'',
      Add_redact_annot 1 draft_rect, Apply_redactions 1, Insert_text 1 (72, 100) ''Final'' 11 (0, 0, 0),
      Load_page 2, Search_for 2 ''Draft'',
      Doc_save ''results/edited_id1.pdf'', Doc_close, Os_remove ''uploads/id0.xps'']"
    using calls_edit_after [OF quiet_world_of [of pdf3] report_xps_accepted, of "''Draft''" "''Final''"]
      pre
    by (simp add: sample_paths sample_doc sample_pages upt_3 sample_rect c len_def page_calls_def
        instance_calls_def)
  have resp: "fst (edit_xps report_xps ''Draft'' ''Final'' (world_of pdf3)) =
       Inr (FileResponse ''results/edited_id1.pdf'' ''application/pdf'' ''edited_id1.pdf'') \<and>
     files (snd (edit_xps report_xps ''Draft'' ''Final'' (world_of pdf3))) ''results/edited_id1.pdf'' =
       Some (Pdf (replaced ''Draft'' ''Final'' pdf3))"
    using edit_xps_on_pdf [of "world_of pdf3" report_xps "''Draft''" "''Final''"]
      quiet_world_of [of pdf3] report_xps_accepted pre
    by (simp add: sample_paths sample_doc)
  show ?thesis
    using resp t quiet_world_of [of pdf3] report_xps_accepted by (simp add: r)
qed

text \<open>
  C7. A file whose name does not end in \<open>.xps\<close>, compared without regard to case, is
  rejected by each of the four endpoints with status 400, and the world is left as it
  was: no file has been saved and no call, so no opening of a document, has been made.
\<close>

theorem wrong_extension_rejected:
  assumes "\<not> endswith (lower (filename file)) ''.xps''"
  shows "convert_xps conversion_type file w =
           (Inl (HTTPException 400
                  (if map_of SUPPORTED_CONVERSIONS conversion_type = None
                   then ''Unsupported conversion. Allowed: '' @ str_keys SUPPORTED_CONVERSIONS
                   else ''Only .xps files are allowed'')), w) \<and>
         read_xps file w = (Inl (HTTPException 400 ''Only .xps files are allowed''), w) \<and>
         preview_all_xps file w = (Inl (HTTPException 400 ''Only .xps files are allowed''), w) \<and>
         edit_xps file old_text new_text w =
           (Inl (HTTPException 400 ''Only .xps files are allowed''), w)"
  using assms by (simp add: convert_xps_def read_xps_def preview_all_xps_def edit_xps_def)

theorem wrong_extension_rejected_witness:
  "\<not> endswith (lower (filename report_txt)) ''.xps'' \<and>
   convert_xps ''pdf'' report_txt (world_of doc3) =
     (Inl (HTTPException 400 ''Only .xps files are allowed''), world_of doc3) \<and>
   convert_xps ''images'' report_txt (world_of doc3) =
     (Inl (HTTPException 400 ''Only .xps files are allowed''), world_of doc3) \<and>
   convert_xps ''docx'' report_txt (world_of doc3) =
     (Inl (HTTPException 400 ''Only .xps files are allowed''), world_of doc3) \<and>
   read_xps report_txt (world_of doc3) =
     (Inl (HTTPException 400 ''Only .xps files are allowed''), world_of doc3) \<and>
   preview_all_xps report_txt (world_of doc3) =
     (Inl (HTTPException 400 ''Only .xps files are allowed''), world_of doc3) \<and>
   edit_xps report_txt ''Draft'' ''Final'' (world_of doc3) =
     (Inl (HTTPException 400 ''Only .xps files are allowed''), world_of doc3)"
  using wrong_extension_rejected [of report_txt "''pdf''" "world_of doc3" "''Draft''" "''Final''"]
    wrong_extension_rejected [of report_txt "''images''" "world_of doc3" "''Draft''" "''Final''"]
    wrong_extension_rejected [of report_txt "''docx''" "world_of doc3" "''Draft''" "''Final''"]
    report_txt_rejected
  by (simp add: SUPPORTED_CONVERSIONS_def)

text \<open>
  C8. When the upload has passed validation and has been saved, an exception raised in
  the \<open>try\<close> suite with text \<open>e\<close> makes the endpoint answer with status 500 and the
  message made of the endpoint's prefix, a colon and a space, and \<open>e\<close>.
\<close>

theorem pipeline_exception_is_500:
  assumes "endswith (lower (filename file)) ''.xps''"
    and "save_file file w = (Inr input_path, w1)"
  shows "(map_of SUPPORTED_CONVERSIONS conversion_type \<noteq> None \<longrightarrow>
            fst (convert_xps_try conversion_type input_path w1) = Inl e \<longrightarrow>
            fst (convert_xps conversion_type file w) =
              Inl (HTTPException 500 (''Conversion failed: '' @ e))) \<and>
         (fst (read_xps_try input_path w1) = Inl e \<longrightarrow>
            fst (read_xps file w) = Inl (HTTPException 500 (''Failed to read XPS: '' @ e))) \<and>
         (fst (preview_all_xps_try input_path w1) = Inl e \<longrightarrow>
            fst (preview_all_xps file w) =
              Inl (HTTPException 500 (''Failed to generate preview: '' @ e))) \<and>
         (fst (edit_xps_try old_text new_text input_path w1) = Inl e \<longrightarrow>
            fst (edit_xps file old_text new_text w) =
              Inl (HTTPException 500 (''Failed to edit XPS: '' @ e)))"
  using assms
  by (auto simp add: convert_xps_def read_xps_def preview_all_xps_def edit_xps_def
      split: prod.splits sum.splits)

theorem pipeline_exception_is_500_witness:
  "endswith (lower (filename report_xps)) ''.xps'' \<and>
   save_file report_xps world_boom = (Inr ''uploads/id0.xps'', saved report_xps world_boom) \<and>
   fst (convert_xps_try ''images'' ''uploads/id0.xps'' (saved report_xps world_boom)) = Inl ''boom'' \<and>
   fst (convert_xps ''images'' report_xps world_boom) =
     Inl (HTTPException 500 ''Conversion failed: boom'') \<and>
   fst (read_xps_try ''uploads/id0.xps'' (saved report_xps world_boom)) = Inl ''boom'' \<and>
   fst (read_xps report_xps world_boom) = Inl (HTTPException 500 ''Failed to read XPS: boom'') \<and>
   fst (preview_all_xps_try ''uploads/id0.xps'' (saved report_xps world_boom)) = Inl ''boom'' \<and>
   fst (preview_all_xps report_xps world_boom) =
     Inl (HTTPException 500 ''Failed to generate preview: boom'') \<and>
   fst (edit_xps_try ''Draft'' ''Final'' ''uploads/id0.xps'' (saved report_xps world_boom)) = Inl ''boom'' \<and>
   fst (edit_xps report_xps ''Draft'' ''Final'' world_boom) =
     Inl (HTTPException 500 ''Failed to edit XPS: boom'')"
  using pipeline_exception_is_500 [OF report_xps_accepted boom_saved, of "''images''" "''boom''"
      "''Draft''" "''Final''"]
    report_xps_accepted boom_saved boom_read boom_preview boom_images boom_edit
  by (simp add: SUPPORTED_CONVERSIONS_def)

text \<open>
  C9, as amended. For a valid document without pages the image, DOCX and text extraction
  operations succeed: the archives have no entry, the DOCX body has no paragraph and no
  page break, and the JSON answer has page count 0 and the empty text.
\<close>

theorem zero_pages_succeed:
  assumes "quiet w" and "endswith (lower (filename file)) ''.xps''"
    and "pages (source_doc file w) = []"
  shows "fst (convert_xps ''images'' file w) =
           Inr (StreamingResponse [] ''application/zip''
                  [(''Content-Disposition'', ''attachment; filename=images.zip'')]) \<and>
         fst (preview_all_xps file w) =
           Inr (StreamingResponse [] ''application/zip''
                  [(''Content-Disposition'', ''attachment; filename=preview_pages.zip'')]) \<and>
         fst (convert_xps ''docx'' file w) =
           Inr (FileResponse (os_path_join RESULT_FOLDER (uuid_src w (Suc (uuid_ctr w)) @ ''.docx''))
                  ''application/vnd.openxmlformats-officedocument.wordprocessingml.document''
                  (uuid_src w (Suc (uuid_ctr w)) @ ''.docx'')) \<and>
         files (snd (convert_xps ''docx'' file w))
               (os_path_join RESULT_FOLDER (uuid_src w (Suc (uuid_ctr w)) @ ''.docx'')) =
           Some (Docx []) \<and>
         length (docx_body (files (snd (convert_xps ''docx'' file w))
               (os_path_join RESULT_FOLDER (uuid_src w (Suc (uuid_ctr w)) @ ''.docx'')))) = 0 \<and>
         page_break_count (docx_body (files (snd (convert_xps ''docx'' file w))
               (os_path_join RESULT_FOLDER (uuid_src w (Suc (uuid_ctr w)) @ ''.docx'')))) = 0 \<and>
         fst (read_xps file w) = Inr (JSONResponse (metadata (source_doc file w)) 0 [])"
  using assms files_docx_after [OF assms(1,2)]
  by (simp add: convert_images_quiet preview_all_xps_quiet convert_docx_quiet read_xps_quiet
      len_def result_name_def docx_body_def)

theorem zero_pages_succeed_witness:
  "quiet (world_of doc0) \<and> endswith (lower (filename report_xps)) ''.xps'' \<and>
   pages (source_doc report_xps (world_of doc0)) = [] \<and>
   fst (convert_xps ''images'' report_xps (world_of doc0)) =
     Inr (StreamingResponse [] ''application/zip''
            [(''Content-Disposition'', ''attachment; filename=images.zip'')]) \<and>
   fst (preview_all_xps report_xps (world_of doc0)) =
     Inr (StreamingResponse [] ''application/zip''
            [(''Content-Disposition'', ''attachment; filename=preview_pages.zip'')]) \<and>
   files (snd (convert_xps ''docx'' report_xps (world_of doc0))) ''results/id1.docx'' = Some (Docx []) \<and>
   fst (read_xps report_xps (world_of doc0)) = Inr (JSONResponse [] 0 [])"
  using zero_pages_succeed [of "world_of doc0" report_xps] quiet_world_of [of doc0] report_xps_accepted
  by (simp add: sample_doc sample_paths)

text \<open>
  The claim as stated lets every operation succeed. The PDF conversion of a document
  without pages is refused by the saving, and the endpoint answers 500.
\<close>

theorem zero_pages_pdf_counterexample:
  "quiet (world_of doc0) \<and> endswith (lower (filename report_xps)) ''.xps'' \<and>
   pages (source_doc report_xps (world_of doc0)) = [] \<and>
   fst (convert_xps ''pdf'' report_xps (world_of doc0)) =
     Inl (HTTPException 500 ''Conversion failed: cannot save with zero pages'')"
proof -
  have q0: "quiet (world_of doc0)" by (rule quiet_world_of)
  have u: "uuid_ctr (world_of doc0) = 0" "uuid_src (world_of doc0) (Suc 0) = ''id1''"
    by (simp_all add: world_of_def str_nat_small)
  show ?thesis
    using q0 report_xps_accepted saved_simps(2) [of report_xps "world_of doc0"]
    by (simp add: convert_xps_def SUPPORTED_CONVERSIONS_def save_file_quiet convert_xps_try_def
        fitz_open_quiet [where b = "content report_xps"] sample_paths source_doc_def [symmetric]
        sample_doc uuid4_def Let_def then_do_def doc_save_zero_pages u)
qed

text \<open>
  C10. The path \<open>save_file\<close> returns is the uploads folder joined with the next
  identifier and \<open>.xps\<close>; the file written there holds the upload's content, and the
  identifier counter has advanced. The client's file name plays no part: \<open>save_file\<close>
  gives the same result for any other name, and so does every endpoint for any other
  accepted name.
\<close>

theorem save_file_path:
  assumes "save_file file w = (Inr p, w')"
  shows "p = os_path_join UPLOAD_FOLDER (uuid_src w (uuid_ctr w) @ ''.xps'') \<and>
         (take 1 (uuid_src w (uuid_ctr w)) \<noteq> ''/'' \<longrightarrow> p = ''uploads/'' @ uuid_src w (uuid_ctr w) @ ''.xps'') \<and>
         files w' = (files w)(p \<mapsto> Upload (content file)) \<and>
         uuid_ctr w' = Suc (uuid_ctr w) \<and>
         save_file (file\<lparr>filename := other\<rparr>) w = (Inr p, w') \<and>
         (endswith (lower (filename file)) ''.xps'' \<and> endswith (lower other) ''.xps'' \<longrightarrow>
            convert_xps conversion_type (file\<lparr>filename := other\<rparr>) w = convert_xps conversion_type file w \<and>
            read_xps (file\<lparr>filename := other\<rparr>) w = read_xps file w \<and>
            preview_all_xps (file\<lparr>filename := other\<rparr>) w = preview_all_xps file w \<and>
            edit_xps (file\<lparr>filename := other\<rparr>) old_text new_text w = edit_xps file old_text new_text w)"
proof -
  have same: "save_file (file\<lparr>filename := other\<rparr>) = save_file file"
    by (rule ext) (simp add: save_file_def Let_def split: prod.splits sum.splits)
  have path: "p = os_path_join UPLOAD_FOLDER (uuid_src w (uuid_ctr w) @ ''.xps'')"
    using assms
    by (auto simp add: save_file_def uuid4_def Let_def lib_def split: option.splits)
  have files: "files w' = (files w)(p \<mapsto> Upload (content file))"
    using assms
    by (auto simp add: save_file_def uuid4_def Let_def lib_def split: option.splits)
  have ctr: "uuid_ctr w' = Suc (uuid_ctr w)"
    using assms
    by (auto simp add: save_file_def uuid4_def Let_def lib_def split: option.splits)
  have plain: "take 1 (uuid_src w (uuid_ctr w)) \<noteq> ''/'' \<longrightarrow>
      p = ''uploads/'' @ uuid_src w (uuid_ctr w) @ ''.xps''"
    using path by (cases "uuid_src w (uuid_ctr w)") (simp_all add: os_path_join_def UPLOAD_FOLDER_def)
  show ?thesis
    using assms path files ctr plain
    by (simp add: same convert_xps_def read_xps_def preview_all_xps_def edit_xps_def)
qed

theorem save_file_path_witness:
  "save_file report_xps (world_of doc3) = (Inr ''uploads/id0.xps'', saved report_xps (world_of doc3)) \<and>
   ''uploads/id0.xps'' = os_path_join UPLOAD_FOLDER (''id0'' @ ''.xps'') \<and>
   files (saved report_xps (world_of doc3)) =
     (files (world_of doc3))(''uploads/id0.xps'' \<mapsto> Upload (content report_xps)) \<and>
   save_file (report_xps\<lparr>filename := ''../../etc/passwd.xps''\<rparr>) (world_of doc3) =
     (Inr ''uploads/id0.xps'', saved report_xps (world_of doc3))"
proof -
  have s: "save_file report_xps (world_of doc3) = (Inr ''uploads/id0.xps'', saved report_xps (world_of doc3))"
    using save_file_quiet [OF quiet_world_of, of report_xps doc3] by (simp add: sample_paths)
  have u: "uuid_src (world_of doc3) (uuid_ctr (world_of doc3)) = ''id0''"
    by (simp add: world_of_def str_nat_small)
  show ?thesis
    using save_file_path [OF s, of "''../../etc/passwd.xps''"] s
    by (simp add: u)
qed

end
